theory Spec2Isabelle
  imports Main "HOL-Library.Sublist" "HOL-Library.Monad_Syntax"
begin

section \<open>JavaScript values and strings\<close>

text \<open>
  The page script works on strings, on the values that \<open>response.json()\<close> delivers, and
  on the DOM. A JavaScript string is modelled as a \<^typ>\<open>string\<close>; text outside ASCII (the
  icons, a few Polish messages) is held as its UTF-8 bytes.

  A \<open>js_value\<close> is any value that parsing JSON can give, or \<open>undefined\<close> (what reading
  a missing property gives). A number is held as the string that \<open>String(n)\<close> gives for
  it, which determines the number up to the sign of zero. An object is held as the list of
  its own properties; a property is looked up by its name, and the first entry of a name
  is the one that counts.
\<close>

datatype js_value =
  Undefined
| Null
| Boolean bool
| Number string
| Str string
| Array "js_value list"
| Object "(string \<times> js_value) list"

text \<open>Truthiness as \<open>if (v)\<close>, \<open>!v\<close>, \<open>v && w\<close> and \<open>v || w\<close> test it: \<open>undefined\<close>,
  \<open>null\<close>, \<open>false\<close>, zero, \<open>NaN\<close> and the empty string are falsy, every array and
  object is truthy.\<close>

fun truthy :: "js_value \<Rightarrow> bool" where
  "truthy Undefined = False"
| "truthy Null = False"
| "truthy (Boolean b) = b"
| "truthy (Number n) = (n \<noteq> ''0'' \<and> n \<noteq> ''NaN'')"
| "truthy (Str s) = (s \<noteq> [])"
| "truthy (Array xs) = True"
| "truthy (Object ps) = True"

text \<open>\<open>v || d\<close> for a string default \<open>d\<close>.\<close>

definition or_else :: "js_value \<Rightarrow> string \<Rightarrow> js_value" where
  "or_else v d = (if truthy v then v else Str d)"

text \<open>
  \<open>v.k\<close> for one of the property names that the script reads from a payload (\<open>error\<close>,
  \<open>devices\<close>, \<open>id\<close>, \<open>name\<close>, \<open>type\<close>, \<open>address\<close>): reading from \<open>null\<close> or
  \<open>undefined\<close> throws a \<open>TypeError\<close> (\<open>None\<close>); an object gives its own property or
  \<open>undefined\<close>; no prototype of the other values defines these names.
\<close>

fun get_prop :: "js_value \<Rightarrow> string \<Rightarrow> js_value option" where
  "get_prop Undefined k = None"
| "get_prop Null k = None"
| "get_prop (Object ps) k = Some (case map_of ps k of None \<Rightarrow> Undefined | Some v \<Rightarrow> v)"
| "get_prop v k = Some Undefined"

text \<open>
  The string conversion that \<open>setAttribute\<close>, \<open>textContent\<close> and template literals
  apply. An array is joined with commas, \<open>null\<close> and \<open>undefined\<close> elements giving the
  empty string. An object is \<open>[object Object]\<close>, unless it has an own property
  \<open>toString\<close>: a value from JSON is never a function, so the conversion finds nothing
  to call and throws a \<open>TypeError\<close> (\<open>None\<close>).
\<close>

fun to_String :: "js_value \<Rightarrow> string option"
  and join_elements :: "js_value list \<Rightarrow> string option" where
  "to_String Undefined = Some ''undefined''"
| "to_String Null = Some ''null''"
| "to_String (Boolean b) = Some (if b then ''true'' else ''false'')"
| "to_String (Number n) = Some n"
| "to_String (Str s) = Some s"
| "to_String (Array xs) = join_elements xs"
| "to_String (Object ps) =
     (if ''toString'' \<in> fst ` set ps then None else Some ''[object Object]'')"
| "join_elements [] = Some []"
| "join_elements (x # xs) =
     (case (if x = Undefined \<or> x = Null then Some [] else to_String x) of
        None \<Rightarrow> None
      | Some a \<Rightarrow>
          (if xs = [] then Some a
           else (case join_elements xs of None \<Rightarrow> None | Some b \<Rightarrow> Some (a @ '','' @ b))))"

text \<open>
  Two pieces of the language are not computed here but taken as given, in a
  \<open>js_builtins\<close>: \<open>String.prototype.toLowerCase\<close> (the Unicode case mapping), and, for
  a string \<open>s\<close>, whether \<open>s > 0\<close> holds (the string is read as a number, with the
  rounding of floating point). Every result below holds for all such functions.
\<close>

record js_builtins =
  toLowerCase :: "string \<Rightarrow> string"
  exceeds_zero :: "string \<Rightarrow> bool"

text \<open>
  \<open>v > 0\<close>, as the script tests the \<open>length\<close> of what came as \<open>devices\<close>. The value
  is converted to a number: \<open>undefined\<close> to \<open>NaN\<close>, \<open>null\<close> and \<open>false\<close> to zero,
  \<open>true\<close> to one, an array through its string, an object to \<open>NaN\<close> through
  \<open>[object Object]\<close>, or not at all when it has an own property \<open>toString\<close>.
\<close>

fun greater_than_zero :: "js_builtins \<Rightarrow> js_value \<Rightarrow> bool option" where
  "greater_than_zero B Undefined = Some False"
| "greater_than_zero B Null = Some False"
| "greater_than_zero B (Boolean b) = Some b"
| "greater_than_zero B (Number n) = Some (n \<noteq> ''0'' \<and> n \<noteq> ''NaN'' \<and> take 1 n \<noteq> ''-'')"
| "greater_than_zero B (Str s) = Some (exceeds_zero B s)"
| "greater_than_zero B (Array xs) = map_option (exceeds_zero B) (to_String (Array xs))"
| "greater_than_zero B (Object ps) =
     (if ''toString'' \<in> fst ` set ps then None else Some False)"

text \<open>
  The instance used in the examples: ASCII letters are lower-cased and other bytes kept; a
  string exceeds zero when it is written with decimal digits only, not all of them zero.
  It agrees with the language on the strings of the examples, which are ASCII names; the
  theorems are stated for every \<open>js_builtins\<close>.
\<close>

definition lower_char :: "char \<Rightarrow> char" where
  "lower_char c =
     (let n = (of_char c :: nat) in if 65 \<le> n \<and> n \<le> 90 then char_of (n + 32) else c)"

definition is_digit :: "char \<Rightarrow> bool" where
  "is_digit c = (let n = (of_char c :: nat) in 48 \<le> n \<and> n \<le> 57)"

definition ascii_builtins :: js_builtins where
  "ascii_builtins =
     \<lparr>toLowerCase = map lower_char,
      exceeds_zero = (\<lambda>s. s \<noteq> [] \<and> list_all is_digit s \<and> list_ex (\<lambda>c. c \<noteq> CHR ''0'') s)\<rparr>"

text \<open>\<open>s.includes(k)\<close>: \<open>k\<close> occurs in \<open>s\<close> as a contiguous run.\<close>

fun includes_str :: "string \<Rightarrow> string \<Rightarrow> bool" where
  "includes_str [] k = (k = [])"
| "includes_str (c # cs) k = (prefix k (c # cs) \<or> includes_str cs k)"

text \<open>
  \<open>String.prototype.trim\<close>, for the ASCII white space characters (space, tab, line
  feed, vertical tab, form feed, carriage return).
\<close>

definition is_space :: "char \<Rightarrow> bool" where
  "is_space c = ((of_char c :: nat) \<in> {32, 9, 10, 11, 12, 13})"

definition trim :: "string \<Rightarrow> string" where
  "trim s = rev (dropWhile is_space (rev (dropWhile is_space s)))"

text \<open>\<open>Number.prototype.toString\<close> on a natural number, and \<open>padStart\<close>.\<close>

definition digit_char :: "nat \<Rightarrow> char" where
  "digit_char d = char_of (48 + d)"

fun toString :: "nat \<Rightarrow> string" where
  "toString n = (if n < 10 then [digit_char n] else toString (n div 10) @ [digit_char (n mod 10)])"

declare toString.simps [simp del]

definition padStart :: "nat \<Rightarrow> char \<Rightarrow> string \<Rightarrow> string" where
  "padStart len c s = replicate (len - length s) c @ s"


section \<open>Helper functions of the script\<close>

subsection \<open>Icons\<close>

text \<open>The seven icon strings, as UTF-8: smartphone, laptop, printer, desktop computer,
  video camera, electric plug, thermometer.\<close>

definition icon_smartphone :: string where
  "icon_smartphone = [CHR 0xF0, CHR 0x9F, CHR 0x93, CHR 0xB1]"

definition icon_laptop :: string where
  "icon_laptop = [CHR 0xF0, CHR 0x9F, CHR 0x92, CHR 0xBB]"

definition icon_printer :: string where
  "icon_printer = [CHR 0xF0, CHR 0x9F, CHR 0x96, CHR 0xA8, CHR 0xEF, CHR 0xB8, CHR 0x8F]"

definition icon_computer :: string where
  "icon_computer = [CHR 0xF0, CHR 0x9F, CHR 0x96, CHR 0xA5, CHR 0xEF, CHR 0xB8, CHR 0x8F]"

definition icon_camera :: string where
  "icon_camera = [CHR 0xF0, CHR 0x9F, CHR 0x93, CHR 0xB9]"

definition icon_plug :: string where
  "icon_plug = [CHR 0xF0, CHR 0x9F, CHR 0x94, CHR 0x8C]"

definition icon_sensor :: string where
  "icon_sensor = [CHR 0xF0, CHR 0x9F, CHR 0x8C, CHR 0xA1, CHR 0xEF, CHR 0xB8, CHR 0x8F]"

definition icon_strings :: "string list" where
  "icon_strings =
     [icon_smartphone, icon_laptop, icon_printer, icon_computer, icon_camera, icon_plug,
      icon_sensor]"

text \<open>The keywords that \<open>getDeviceIconByName\<close> looks for, in the order of the source.\<close>

definition recognized_keywords :: "string list" where
  "recognized_keywords =
     [''phone'', ''iphone'', ''samsung'', ''xiaomi'',
      ''laptop'', ''notebook'', ''macbook'',
      ''printer'', ''drukarka'',
      ''computer'', ''desktop'', ''pc'',
      ''camera'', ''kamera'',
      ''socket'', ''plug'', ''gniazdko'',
      ''sensor'', ''czujnik'']"

text \<open>
  \<open>getDeviceIconByName(name)\<close>: the early return for a falsy name, then
  \<open>name.toLowerCase()\<close> and the chain of \<open>includes\<close> tests on the result;
  \<open>icon_of_lowered\<close> is that chain. A truthy name that is not a string (a number,
  \<open>true\<close>, an array, an object) has no method \<open>toLowerCase\<close>, and the call throws a
  \<open>TypeError\<close>: the result is \<open>None\<close>.
\<close>

definition icon_of_lowered :: "string \<Rightarrow> string" where
  "icon_of_lowered n =
     (if includes_str n ''phone'' \<or> includes_str n ''iphone'' \<or> includes_str n ''samsung''
         \<or> includes_str n ''xiaomi'' then icon_smartphone
      else if includes_str n ''laptop'' \<or> includes_str n ''notebook'' \<or> includes_str n ''macbook''
        then icon_laptop
      else if includes_str n ''printer'' \<or> includes_str n ''drukarka'' then icon_printer
      else if includes_str n ''computer'' \<or> includes_str n ''desktop'' \<or> includes_str n ''pc''
        then icon_computer
      else if includes_str n ''camera'' \<or> includes_str n ''kamera'' then icon_camera
      else if includes_str n ''socket'' \<or> includes_str n ''plug'' \<or> includes_str n ''gniazdko''
        then icon_plug
      else if includes_str n ''sensor'' \<or> includes_str n ''czujnik'' then icon_sensor
      else icon_smartphone)"

definition getDeviceIconByName :: "js_builtins \<Rightarrow> js_value \<Rightarrow> string option" where
  "getDeviceIconByName B name =
     (if \<not> truthy name then Some icon_smartphone
      else (case name of
              Str s \<Rightarrow> Some (icon_of_lowered (toLowerCase B s))
            | _ \<Rightarrow> None))"

subsection \<open>Random draws\<close>

text \<open>
  \<open>Math.floor(Math.random() * n)\<close> is an integer from \<open>0\<close> to \<open>n - 1\<close>. The functions
  that draw take that integer as an argument, one for each call of \<open>Math.random\<close>.
\<close>

definition generateUniqueId :: "nat \<Rightarrow> nat \<Rightarrow> string" where
  "generateUniqueId r1 r2 =
     ''DEV_'' @ padStart 4 (CHR ''0'') (toString r1) @ ''_'' @ padStart 4 (CHR ''0'') (toString r2)"

definition statuses :: "string list" where
  "statuses = [''online'', ''offline'']"

text \<open>\<open>statuses[i]\<close>, converted to a string where it is used; out of range it is
  \<open>undefined\<close>.\<close>

definition statuses_at :: "nat \<Rightarrow> string" where
  "statuses_at i = (if i < length statuses then statuses ! i else ''undefined'')"


section \<open>The page\<close>

text \<open>
  The state of the page, as far as the device list, the password store, the modal dialogs
  and the scan panel go. DOM nodes that the script creates have an identity: a \<open>ref\<close>,
  drawn from a counter. The children of the sidebar are its static markup, the three
  category headers and the device links. A device link is an element with the \<open>data-\<close>
  attributes of the source (strings, as \<open>setAttribute\<close> stores them; \<open>data-ip\<close> may be
  absent) and the content of its \<open>.device-name\<close> block.

  Left out as presentation only: collapsing the sidebar, animation classes, timers, focus,
  the search (it changes only which links are shown and highlighted), and the click
  handlers of scanned list items. Values that the user
  types or selects are arguments of the handler that reads them, so the script's writes to
  those same input boxes are not part of the state. \<open>None\<close> as the result of an
  operation stands for an uncaught \<open>TypeError\<close> that aborts the handler.
\<close>

type_synonym ref = nat

datatype sidebar_category = Favorites | Online | Offline

datatype child = Fixed string | Category sidebar_category | Link ref

record device =
  data_device_id :: string
  data_protected :: string
  data_status :: string
  data_favorite :: string
  data_device_type :: string
  data_ip :: "string option"
  data_manual_add :: string
  status_icon_class :: string
  favorite_star :: string
  favorite_star_active :: bool
  device_type_icon :: string
  name_text :: string
  lock_icon :: bool
  filtered :: bool

datatype action = Edit | Delete

datatype modal = AddDeviceModal | PasswordVerifyModal | EditDeviceModal

text \<open>
  What is rendered for a scan. A device list item is held as the value of its
  \<open>data-id\<close> attribute, whether it has the class \<open>paired-device\<close>, and the string
  that the script assigns to its \<open>innerHTML\<close> (which the browser reads as markup);
  its click handler is not part of the model.
\<close>

datatype 'a settled = Rejected | Fulfilled 'a

record device_list_item =
  item_data_id :: string
  item_paired :: bool
  item_innerHTML :: string

datatype bluetooth_child =
  BluetoothSection string string "device_list_item list"
| BluetoothNoDevices string

datatype list_node =
  LoadingIndicator ref string
| ErrorMessage string
| NoDevicesMessage string
| DeviceListItem device_list_item
| BluetoothContainer "bluetooth_child list"

datatype request = GET string

record page =
  sidebar :: "child list"
  elements :: "ref \<rightharpoonup> device"
  next_ref :: ref
  devicePasswords :: "string \<rightharpoonup> string"
  currentActionDevice :: "ref option"
  currentActionType :: "action option"
  favorites_display :: string
  addDeviceModal_show :: bool
  passwordVerifyModal_show :: bool
  editDeviceModal_show :: bool
  passwordPromptText :: string
  alerts :: "string list"
  deviceId_value :: string
  editDeviceId_value :: string
  editDeviceIP_disabled :: bool
  selected_option :: "string option"
  deviceList_display :: string
  deviceIPGroup_display :: string
  deviceListContainer :: "list_node list"
  requests :: "request list"

text \<open>The values of the add form and of the edit form that the user controls.\<close>

record add_input =
  deviceName_value :: string
  passwordProtect_checked :: bool
  devicePassword_value :: string
  deviceType_value :: string
  deviceIP_value :: string

record edit_input =
  editDeviceName_value :: string
  editPasswordProtect_checked :: bool
  editDevicePassword_value :: string
  editDeviceType_value :: string
  editDeviceIP_value :: string

subsection \<open>DOM helpers\<close>

definition bool_attr :: "bool \<Rightarrow> string" where
  "bool_attr b = (if b then ''true'' else ''false'')"

definition alert :: "string \<Rightarrow> page \<Rightarrow> page" where
  "alert msg s = s\<lparr>alerts := alerts s @ [msg]\<rparr>"

text \<open>The device links that are in the document, in document order.\<close>

definition linked_devices :: "page \<Rightarrow> device list" where
  "linked_devices s =
     List.map_filter (\<lambda>c. case c of Link r \<Rightarrow> elements s r | _ \<Rightarrow> None) (sidebar s)"

text \<open>
  \<open>sidebar.insertBefore(node, header.nextSibling)\<close>: the node leaves its old place and
  becomes the child right after the header. \<open>insert_after\<close> is \<open>None\<close> when the header
  is not there (\<open>querySelector\<close> gave \<open>null\<close>, and reading \<open>nextSibling\<close> throws).
\<close>

fun insert_after :: "'a \<Rightarrow> 'a \<Rightarrow> 'a list \<Rightarrow> 'a list option" where
  "insert_after h x [] = None"
| "insert_after h x (y # ys) =
     (if y = h then Some (y # x # ys) else map_option ((#) y) (insert_after h x ys))"

definition insertAfterSection :: "sidebar_category \<Rightarrow> ref \<Rightarrow> page \<Rightarrow> page option" where
  "insertAfterSection sec r s =
     (case insert_after (Category sec) (Link r) (removeAll (Link r) (sidebar s)) of
        None \<Rightarrow> None
      | Some cs \<Rightarrow> Some (s\<lparr>sidebar := cs\<rparr>))"

text \<open>The child that follows the first occurrence of a node, if any.\<close>

fun next_sibling :: "'a \<Rightarrow> 'a list \<Rightarrow> 'a option" where
  "next_sibling h [] = None"
| "next_sibling h [y] = None"
| "next_sibling h (y # z # zs) = (if y = h then Some z else next_sibling h (z # zs))"

definition closeModal :: "modal \<Rightarrow> page \<Rightarrow> page" where
  "closeModal m s =
     (case m of
        AddDeviceModal \<Rightarrow> s\<lparr>addDeviceModal_show := False\<rparr>
      | PasswordVerifyModal \<Rightarrow> s\<lparr>passwordVerifyModal_show := False\<rparr>
      | EditDeviceModal \<Rightarrow> s\<lparr>editDeviceModal_show := False\<rparr>)"

definition star_empty :: string where
  "star_empty = [CHR 0xE2, CHR 0x98, CHR 0x86]"

definition star_filled :: string where
  "star_filled = [CHR 0xE2, CHR 0x98, CHR 0x85]"

subsection \<open>Sections and filters\<close>

text \<open>The static children of \<open>#sidebar\<close> in the markup (white space and comments
  between them left out).\<close>

definition html_sidebar :: "child list" where
  "html_sidebar = [Fixed ''sidebar-dropdown'', Fixed ''filters-section'', Fixed ''div'']"

definition html_page :: page where
  "html_page =
     \<lparr>sidebar = html_sidebar, elements = Map.empty, next_ref = 0,
      devicePasswords = Map.empty, currentActionDevice = None, currentActionType = None,
      favorites_display = [], addDeviceModal_show = False, passwordVerifyModal_show = False,
      editDeviceModal_show = False, passwordPromptText = ''Enter password to access the device.'',
      alerts = [], deviceId_value = [], editDeviceId_value = [],
      editDeviceIP_disabled = False, selected_option = None, deviceList_display = ''none'',
      deviceIPGroup_display = ''none'', deviceListContainer = [], requests = []\<rparr>"

definition initDeviceSections :: "page \<Rightarrow> page option" where
  "initDeviceSections s =
     (let cs = remove1 (Category Offline)
                 (remove1 (Category Online) (remove1 (Category Favorites) (sidebar s)))
      in do {
        c1 \<leftarrow> insert_after (Fixed ''filters-section'') (Category Favorites) cs;
        c2 \<leftarrow> insert_after (Category Favorites) (Category Online) c1;
        c3 \<leftarrow> insert_after (Category Online) (Category Offline) c2;
        Some (s\<lparr>sidebar := c3, favorites_display := ''block''\<rparr>)
      })"

definition should_show :: "bool \<Rightarrow> bool \<Rightarrow> string \<Rightarrow> device \<Rightarrow> bool" where
  "should_show showAvailable showOffline selectedDeviceType d =
     (\<not> ((data_status d = ''online'' \<and> \<not> showAvailable)
          \<or> (data_status d = ''offline'' \<and> \<not> showOffline))
      \<and> \<not> (selectedDeviceType \<noteq> ''all'' \<and> data_device_type d \<noteq> selectedDeviceType))"

definition applyFilters :: "bool \<Rightarrow> bool \<Rightarrow> string \<Rightarrow> page \<Rightarrow> page" where
  "applyFilters showAvailable showOffline selectedDeviceType s =
     (let shown = should_show showAvailable showOffline selectedDeviceType;
          hasFavorites = list_ex (\<lambda>d. shown d \<and> data_favorite d = ''true'') (linked_devices s);
          s1 = s\<lparr>elements := (\<lambda>r. if Link r \<in> set (sidebar s)
                    then map_option (\<lambda>d. d\<lparr>filtered := \<not> shown d\<rparr>) (elements s r)
                    else elements s r)\<rparr>
      in if Category Favorites \<in> set (sidebar s)
         then s1\<lparr>favorites_display := (if hasFavorites then ''block'' else ''none'')\<rparr>
         else s1)"

definition updateSectionVisibility :: "page \<Rightarrow> page" where
  "updateSectionVisibility s =
     (let hasFavorites =
            list_ex (\<lambda>d. data_favorite d = ''true'' \<and> \<not> filtered d) (linked_devices s)
      in if Category Favorites \<in> set (sidebar s)
         then s\<lparr>favorites_display := (if hasFavorites then ''block'' else ''none'')\<rparr>
         else s)"

text \<open>The page once \<open>DOMContentLoaded\<close> has run: sections created, filters applied with
  the defaults of the markup (both boxes checked, all types).\<close>

definition DOMContentLoaded :: "page \<Rightarrow> page option" where
  "DOMContentLoaded s = map_option (applyFilters True True ''all'') (initDeviceSections s)"


section \<open>Device management\<close>

text \<open>
  \<open>addDeviceToSidebar\<close>. The status is \<open>statuses[i]\<close> for the drawn index \<open>i\<close>; the
  new element gets its attributes and content and is put right after the header of the
  section for that status.
\<close>

definition addDeviceToSidebar ::
  "string \<Rightarrow> string \<Rightarrow> bool \<Rightarrow> string \<Rightarrow> string \<Rightarrow> bool \<Rightarrow> nat \<Rightarrow> page \<Rightarrow> page option" where
  "addDeviceToSidebar name ident isProtected deviceType deviceIP isManuallyAdded i s =
     (let randomStatus = statuses_at i;
          r = next_ref s;
          newDevice =
            \<lparr>data_device_id = ident,
             data_protected = bool_attr isProtected,
             data_status = randomStatus,
             data_favorite = ''false'',
             data_device_type = deviceType,
             data_ip = (if deviceIP \<noteq> [] then Some deviceIP else None),
             data_manual_add = bool_attr isManuallyAdded,
             status_icon_class = ''device-status status-'' @ randomStatus,
             favorite_star = star_empty,
             favorite_star_active = False,
             device_type_icon = deviceType,
             name_text = name,
             lock_icon = isProtected,
             filtered = False\<rparr>;
          s1 = s\<lparr>elements := (elements s)(r \<mapsto> newDevice), next_ref := Suc r\<rparr>
      in if randomStatus = ''online'' then insertAfterSection Online r s1
         else insertAfterSection Offline r s1)"

definition moveDeviceToFavorites :: "ref \<Rightarrow> page \<Rightarrow> page option" where
  "moveDeviceToFavorites r s =
     (if Category Favorites \<in> set (sidebar s) then insertAfterSection Favorites r s else Some s)"

definition moveDeviceToCorrectSection :: "ref \<Rightarrow> page \<Rightarrow> page option" where
  "moveDeviceToCorrectSection r s =
     do {
       d \<leftarrow> elements s r;
       if data_favorite d = ''true'' then moveDeviceToFavorites r s
       else if data_status d = ''online'' then insertAfterSection Online r s
       else insertAfterSection Offline r s
     }"

text \<open>\<open>updateDeviceInSidebar\<close>; its \<open>id\<close> argument is not used by the source either.
  \<open>isManuallyAdded\<close> is \<open>None\<close> for \<open>undefined\<close>.\<close>

definition updateDeviceInSidebar ::
  "ref \<Rightarrow> string \<Rightarrow> string \<Rightarrow> bool \<Rightarrow> string \<Rightarrow> string \<Rightarrow> bool option \<Rightarrow> page \<Rightarrow> page option" where
  "updateDeviceInSidebar r name ident isProtected deviceType deviceIP isManuallyAdded s =
     do {
       d \<leftarrow> elements s r;
       (let currentStatus = data_status d;
           isFavorite = (data_favorite d = ''true'');
           d1 = d\<lparr>data_device_type := deviceType,
                  data_ip := (if deviceIP \<noteq> [] then Some deviceIP else None)\<rparr>;
           d2 = (case isManuallyAdded of
                   None \<Rightarrow> d1
                 | Some m \<Rightarrow> d1\<lparr>data_manual_add := bool_attr m\<rparr>);
           d3 = d2\<lparr>status_icon_class := ''device-status status-'' @ currentStatus,
                   favorite_star := (if isFavorite then star_filled else star_empty),
                   favorite_star_active := isFavorite,
                   device_type_icon := deviceType,
                   name_text := name,
                   lock_icon := isProtected,
                   data_protected := bool_attr isProtected\<rparr>
       in moveDeviceToCorrectSection r (s\<lparr>elements := (elements s)(r \<mapsto> d3)\<rparr>))
     }"

text \<open>\<open>deleteDevice\<close>: the password entry goes, then the element leaves its parent
  (with no parent, \<open>parentNode\<close> is \<open>null\<close> and \<open>removeChild\<close> throws).\<close>

definition deleteDevice :: "ref \<Rightarrow> page \<Rightarrow> page option" where
  "deleteDevice r s =
     do {
       d \<leftarrow> elements s r;
       let s1 = s\<lparr>devicePasswords := (devicePasswords s)(data_device_id d := None)\<rparr>;
       if Link r \<in> set (sidebar s1)
       then Some (s1\<lparr>sidebar := removeAll (Link r) (sidebar s1)\<rparr>)
       else None
     }"

definition openEditDeviceModal :: "ref \<Rightarrow> page \<Rightarrow> page option" where
  "openEditDeviceModal r s =
     do {
       d \<leftarrow> elements s r;
       Some (s\<lparr>editDeviceId_value := data_device_id d,
               editDeviceIP_disabled := (data_manual_add d \<noteq> ''true''),
               editDeviceModal_show := True\<rparr>)
     }"

text \<open>\<open>handleDeviceAction\<close>; \<open>confirmed\<close> is the user's answer to the \<open>confirm\<close>
  dialog, asked only when an unprotected device is deleted.\<close>

definition handleDeviceAction :: "ref \<Rightarrow> action \<Rightarrow> bool \<Rightarrow> page \<Rightarrow> page option" where
  "handleDeviceAction r actionType confirmed s =
     do {
       let s1 = s\<lparr>currentActionDevice := Some r, currentActionType := Some actionType\<rparr>;
       d \<leftarrow> elements s1 r;
       if data_protected d = ''true''
       then Some (s1\<lparr>passwordPromptText :=
                        (case actionType of
                           Edit \<Rightarrow> ''Enter password to edit device.''
                         | Delete \<Rightarrow> ''Enter password to delete device.''),
                      passwordVerifyModal_show := True\<rparr>)
       else (case actionType of
               Edit \<Rightarrow> openEditDeviceModal r s1
             | Delete \<Rightarrow>
                 if confirmed then map_option updateSectionVisibility (deleteDevice r s1)
                 else Some s1)
     }"

definition toggleFavorite :: "ref \<Rightarrow> page \<Rightarrow> page option" where
  "toggleFavorite r s =
     do {
       d \<leftarrow> elements s r;
       s2 \<leftarrow> (if data_favorite d = ''true''
              then moveDeviceToCorrectSection r
                     (s\<lparr>elements := (elements s)(r \<mapsto>
                          d\<lparr>data_favorite := ''false'', favorite_star := star_empty,
                            favorite_star_active := False\<rparr>)\<rparr>)
              else moveDeviceToFavorites r
                     (s\<lparr>elements := (elements s)(r \<mapsto>
                          d\<lparr>data_favorite := ''true'', favorite_star := star_filled,
                            favorite_star_active := True\<rparr>)\<rparr>));
       Some (updateSectionVisibility s2)
     }"

definition toggleDeviceStatus :: "ref \<Rightarrow> page \<Rightarrow> page option" where
  "toggleDeviceStatus r s =
     do {
       d \<leftarrow> elements s r;
       let currentStatus = data_status d;
       let newStatus = (if currentStatus = ''online'' then ''offline'' else ''online'');
       let s1 = s\<lparr>elements := (elements s)(r \<mapsto>
                    d\<lparr>data_status := newStatus,
                      status_icon_class := ''device-status status-'' @ newStatus\<rparr>)\<rparr>;
       s2 \<leftarrow> moveDeviceToCorrectSection r s1;
       Some (updateSectionVisibility s2)
     }"


section \<open>Event handlers\<close>

text \<open>The \<open>Add Device\<close> button: a new id from two draws, the connection choice reset,
  the modal shown.\<close>

definition addDeviceButton_click :: "nat \<Rightarrow> nat \<Rightarrow> page \<Rightarrow> page" where
  "addDeviceButton_click r1 r2 s =
     s\<lparr>deviceId_value := generateUniqueId r1 r2,
       deviceIPGroup_display := ''none'',
       selected_option := None,
       deviceList_display := ''none'',
       addDeviceModal_show := True\<rparr>"

definition confirmAddDevice :: "add_input \<Rightarrow> nat \<Rightarrow> page \<Rightarrow> page option" where
  "confirmAddDevice inp i s =
     (let name = trim (deviceName_value inp);
          ident = deviceId_value s;
          isPasswordProtected = passwordProtect_checked inp;
          password = devicePassword_value inp;
          ty = deviceType_value inp;
          manualOptionSelected = (selected_option s = Some ''manual'');
          ip = trim (deviceIP_value inp)
      in if name = [] then Some (alert ''Enter device name!'' s)
         else if isPasswordProtected \<and> password = []
           then Some (alert ''Enter password for protected device!'' s)
         else if manualOptionSelected \<and> ip = [] then Some (alert ''Enter device IP!'' s)
         else do {
           let s1 = (if isPasswordProtected
                     then s\<lparr>devicePasswords := (devicePasswords s)(ident \<mapsto> password)\<rparr>
                     else s);
           s2 \<leftarrow> addDeviceToSidebar name ident isPasswordProtected ty
                   (if manualOptionSelected then ip else []) manualOptionSelected i s1;
           Some (updateSectionVisibility (closeModal AddDeviceModal s2))
         })"

text \<open>The \<open>Verify\<close> button of the password dialog. A string is strictly equal to the
  stored value only when an entry exists and holds that string.\<close>

definition confirmPasswordVerify :: "string \<Rightarrow> page \<Rightarrow> page option" where
  "confirmPasswordVerify enteredPassword s =
     do {
       r \<leftarrow> currentActionDevice s;
       d \<leftarrow> elements s r;
       let correctPassword = devicePasswords s (data_device_id d);
       if Some enteredPassword = correctPassword
       then (let s1 = closeModal PasswordVerifyModal s
             in case currentActionType s of
                  Some Edit \<Rightarrow> openEditDeviceModal r s1
                | Some Delete \<Rightarrow> map_option updateSectionVisibility (deleteDevice r s1)
                | None \<Rightarrow> Some s1)
       else Some (alert ''Incorrect password!'' s)
     }"

text \<open>The \<open>Save Changes\<close> button of the edit dialog. The device is read first where
  the IP box is disabled, otherwise only after the first two checks.\<close>

definition confirmEditDevice :: "edit_input \<Rightarrow> page \<Rightarrow> page option" where
  "confirmEditDevice inp s =
     (let name = trim (editDeviceName_value inp);
          ident = editDeviceId_value s;
          isPasswordProtected = editPasswordProtect_checked inp;
          password = editDevicePassword_value inp;
          ty = editDeviceType_value inp;
          stored = (case devicePasswords s ident of None \<Rightarrow> [] | Some p \<Rightarrow> p)
      in do {
        ip \<leftarrow> (if \<not> editDeviceIP_disabled s then Some (trim (editDeviceIP_value inp))
               else do {
                 r \<leftarrow> currentActionDevice s;
                 d \<leftarrow> elements s r;
                 Some (case data_ip d of None \<Rightarrow> [] | Some a \<Rightarrow> a)
               });
        if name = [] then Some (alert ''Enter device name!'' s)
        else if isPasswordProtected \<and> password = [] \<and> stored = []
          then Some (alert ''Enter password for protected device!'' s)
        else do {
          r \<leftarrow> currentActionDevice s;
          d \<leftarrow> elements s r;
          let isManuallyAdded = (data_manual_add d = ''true'');
          if isManuallyAdded \<and> ip = [] then Some (alert ''Enter device IP!'' s)
          else do {
            let pws = (if isPasswordProtected
                       then (if password \<noteq> [] then (devicePasswords s)(ident \<mapsto> password)
                             else devicePasswords s)
                       else (devicePasswords s)(ident := None));
            s2 \<leftarrow> updateDeviceInSidebar r name ident isPasswordProtected ty ip
                    (Some isManuallyAdded) (s\<lparr>devicePasswords := pws\<rparr>);
            Some (updateSectionVisibility (closeModal EditDeviceModal s2))
          }
        }
      })"


section \<open>Scanning\<close>

text \<open>
  A scan shows a loading indicator, issues its requests and returns; the promise settles
  later. Each scan function is therefore modelled by what it does at once, by its
  \<open>then\<close> callback, by its \<open>catch\<close> callback, and by \<open>settled\<close>, which runs the
  callbacks for an outcome of the requests. \<open>Rejected\<close> stands for a failed request or a
  body that is not JSON; a fulfilled request delivers any JSON value. A \<open>then\<close> callback
  either returns or throws part of the way, and what it has written to the page by then
  stays written: its result is a \<open>completion\<close>. A callback that throws rejects the chain,
  and the \<open>catch\<close> callback runs on the page as it was left.
\<close>

definition API_BASE_URL :: string where
  "API_BASE_URL = ''http://localhost:5000/api''"

definition unknown_device_name :: string where
  "unknown_device_name = ''Nieznane urz'' @ [CHR 0xC4, CHR 0x85] @ ''dzenie''"

definition no_mac_address :: string where
  "no_mac_address = ''Brak adresu MAC''"

definition scan_loading_text :: string where
  "scan_loading_text =
     ''Skanowanie urz'' @ [CHR 0xC4, CHR 0x85] @ ''dze'' @ [CHR 0xC5, CHR 0x84] @ ''...''"

definition scan_no_devices_text :: string where
  "scan_no_devices_text =
     ''Nie znaleziono '' @ [CHR 0xC5, CHR 0xBC] @ ''adnych urz'' @ [CHR 0xC4, CHR 0x85]
       @ ''dze'' @ [CHR 0xC5, CHR 0x84] @ ''.''"

definition scan_api_error_text :: string where
  "scan_api_error_text =
     ''Wyst'' @ [CHR 0xC4, CHR 0x85] @ ''pi'' @ [CHR 0xC5, CHR 0x82] @ '' b''
       @ [CHR 0xC5, CHR 0x82, CHR 0xC4, CHR 0x85] @ ''d podczas ''
       @ [CHR 0xC5, CHR 0x82, CHR 0xC4, CHR 0x85] @ ''czenia z API. Sprawd''
       @ [CHR 0xC5, CHR 0xBA] @ '', czy serwer API jest uruchomiony.''"

definition bluetooth_loading_text :: string where
  "bluetooth_loading_text = ''Scanning Bluetooth devices...''"

definition bluetooth_scan_error_text :: string where
  "bluetooth_scan_error_text = ''An error occurred while scanning Bluetooth devices.''"

definition bluetooth_api_error_text :: string where
  "bluetooth_api_error_text =
     ''An error occurred while connecting to the API. Check if the API server is running.''"

definition icon_magnifier :: string where
  "icon_magnifier = [CHR 0xF0, CHR 0x9F, CHR 0x94, CHR 0x8D]"

datatype completion = Returned page | Threw page

text \<open>
  The markup of an item. \<open>line_break n\<close> is a line feed and the \<open>n\<close> spaces that
  indent the next line of a template literal in the source; \<open>element\<close> is an element
  with a class and its content, as the templates write it.
\<close>

definition line_break :: "nat \<Rightarrow> string" where
  "line_break n = CHR 0x0A # replicate n (CHR '' '')"

definition element :: "string \<Rightarrow> string \<Rightarrow> string \<Rightarrow> string" where
  "element tag cls inner =
     ''<'' @ tag @ '' class='' @ [CHR 0x22] @ cls @ [CHR 0x22] @ ''>'' @ inner
       @ ''</'' @ tag @ ''>''"

text \<open>The template literal that the loop of \<open>scanForDevices\<close> assigns to \<open>innerHTML\<close>.\<close>

definition scan_item_markup :: "string \<Rightarrow> string \<Rightarrow> string \<Rightarrow> string" where
  "scan_item_markup deviceIcon deviceName addressDisplay =
     line_break 24 @ element ''div'' ''device-list-icon'' deviceIcon
     @ line_break 24
     @ element ''div'' ''device-list-info''
         (line_break 28 @ element ''div'' ''device-list-name'' deviceName
          @ line_break 28 @ addressDisplay
          @ line_break 24)
     @ line_break 20"

text \<open>The template literal of \<open>createDeviceListItem\<close> and its badge for a paired device
  (a check mark).\<close>

definition paired_badge :: string where
  "paired_badge = element ''span'' ''paired-badge'' [CHR 0xE2, CHR 0x9C, CHR 0x93]"

definition list_item_markup :: "string \<Rightarrow> string \<Rightarrow> string \<Rightarrow> string \<Rightarrow> string" where
  "list_item_markup deviceIcon deviceName pairedBadge macAddress =
     line_break 8 @ element ''div'' ''device-list-icon'' deviceIcon
     @ line_break 8
     @ element ''div'' ''device-list-info''
         (line_break 12 @ element ''div'' ''device-list-name'' (deviceName @ '' '' @ pairedBadge)
          @ line_break 12 @ element ''div'' ''device-address'' macAddress
          @ line_break 8)
     @ line_break 4"

text \<open>
  The body of the loop of \<open>scanForDevices\<close> up to \<open>appendChild\<close>: the item built for
  one device. The strings are put into the markup as they are, whatever characters they
  hold. Reading a property of a device that is \<open>null\<close>, \<open>getDeviceIconByName\<close> on a
  truthy name that is not a string, and converting to a string an object that has an own
  \<open>toString\<close> throw: the result is \<open>None\<close>, and nothing has been appended for the
  device.
\<close>

definition scanForDevices_deviceItem :: "js_builtins \<Rightarrow> js_value \<Rightarrow> device_list_item option" where
  "scanForDevices_deviceItem B device =
     do {
       ident \<leftarrow> get_prop device ''id'';
       data_id \<leftarrow> to_String ident;
       ty \<leftarrow> get_prop device ''type'';
       name \<leftarrow> get_prop device ''name'';
       deviceIcon \<leftarrow> (if truthy ty then Some ty
                      else map_option Str (getDeviceIconByName B name));
       let deviceName = or_else name unknown_device_name;
       address \<leftarrow> get_prop device ''address'';
       addressDisplay \<leftarrow> (if truthy address
                          then map_option (element ''div'' ''device-address'') (to_String address)
                          else Some (element ''div'' ''device-address'' no_mac_address));
       iconText \<leftarrow> to_String deviceIcon;
       nameText \<leftarrow> to_String deviceName;
       Some \<lparr>item_data_id = data_id, item_paired = False,
             item_innerHTML = scan_item_markup iconText nameText addressDisplay\<rparr>
     }"

text \<open>\<open>createDeviceListItem(device, isPaired)\<close>, which throws in the same cases.\<close>

definition createDeviceListItem ::
  "js_builtins \<Rightarrow> js_value \<Rightarrow> bool \<Rightarrow> device_list_item option" where
  "createDeviceListItem B device isPaired =
     do {
       ident \<leftarrow> get_prop device ''id'';
       data_id \<leftarrow> to_String ident;
       ty \<leftarrow> get_prop device ''type'';
       name \<leftarrow> get_prop device ''name'';
       deviceIcon \<leftarrow> (if truthy ty then Some ty
                      else map_option Str (getDeviceIconByName B name));
       let deviceName = or_else name unknown_device_name;
       let pairedBadge = (if isPaired then paired_badge else []);
       address \<leftarrow> get_prop device ''address'';
       let macAddress = or_else address no_mac_address;
       iconText \<leftarrow> to_String deviceIcon;
       nameText \<leftarrow> to_String deviceName;
       addressText \<leftarrow> to_String macAddress;
       Some \<lparr>item_data_id = data_id, item_paired = isPaired,
             item_innerHTML = list_item_markup iconText nameText pairedBadge addressText\<rparr>
     }"

text \<open>
  \<open>devices.length > 0\<close> for a truthy \<open>devices\<close>: the length of an array or of a
  string, the own property \<open>length\<close> of an object, \<open>undefined\<close> for a number or
  \<open>true\<close>.
\<close>

fun length_exceeds_zero :: "js_builtins \<Rightarrow> js_value \<Rightarrow> bool option" where
  "length_exceeds_zero B (Array xs) = Some (xs \<noteq> [])"
| "length_exceeds_zero B (Str s) = Some (s \<noteq> [])"
| "length_exceeds_zero B (Object ps) =
     greater_than_zero B (case map_of ps ''length'' of None \<Rightarrow> Undefined | Some v \<Rightarrow> v)"
| "length_exceeds_zero B (Boolean b) = Some False"
| "length_exceeds_zero B (Number n) = Some False"
| "length_exceeds_zero B Undefined = None"
| "length_exceeds_zero B Null = None"

text \<open>What \<open>devices.forEach\<close> runs over: only an array has the method.\<close>

fun forEach_items :: "js_value \<Rightarrow> js_value list option" where
  "forEach_items (Array xs) = Some xs"
| "forEach_items v = None"

subsection \<open>\<open>scanForDevices\<close>\<close>

definition scanForDevices :: "string \<Rightarrow> page \<Rightarrow> page" where
  "scanForDevices method s =
     s\<lparr>deviceListContainer := [LoadingIndicator (next_ref s) scan_loading_text],
       next_ref := Suc (next_ref s),
       deviceList_display := ''block'',
       requests := requests s @ [GET (API_BASE_URL @ ''/devices/scan?method='' @ method)]\<rparr>"

definition append_node :: "list_node \<Rightarrow> page \<Rightarrow> page" where
  "append_node n s = s\<lparr>deviceListContainer := deviceListContainer s @ [n]\<rparr>"

text \<open>The loop over the devices: each item is appended as soon as it is built, so the
  items before a device that throws stay in the list.\<close>

fun appendDevices :: "js_builtins \<Rightarrow> js_value list \<Rightarrow> page \<Rightarrow> completion" where
  "appendDevices B [] s = Returned s"
| "appendDevices B (device # devices) s =
     (case scanForDevices_deviceItem B device of
        None \<Rightarrow> Threw s
      | Some deviceItem \<Rightarrow> appendDevices B devices (append_node (DeviceListItem deviceItem) s))"

definition scanForDevices_then :: "js_builtins \<Rightarrow> ref \<Rightarrow> js_value \<Rightarrow> page \<Rightarrow> completion" where
  "scanForDevices_then B li data s =
     (let loadingIndicator = LoadingIndicator li scan_loading_text in
      if loadingIndicator \<notin> set (deviceListContainer s) then Threw s
      else
        (let s1 = s\<lparr>deviceListContainer := remove1 loadingIndicator (deviceListContainer s)\<rparr>
         in case get_prop data ''error'' of
              None \<Rightarrow> Threw s1
            | Some err \<Rightarrow>
                if truthy err
                then (case to_String err of
                        None \<Rightarrow> Threw s1
                      | Some e \<Rightarrow> Returned (append_node (ErrorMessage e) s1))
                else
                  (case get_prop data ''devices'' of
                     None \<Rightarrow> Threw s1
                   | Some devices \<Rightarrow>
                       if \<not> truthy devices
                       then Returned (append_node (NoDevicesMessage scan_no_devices_text) s1)
                       else
                         (case length_exceeds_zero B devices of
                            None \<Rightarrow> Threw s1
                          | Some False \<Rightarrow>
                              Returned (append_node (NoDevicesMessage scan_no_devices_text) s1)
                          | Some True \<Rightarrow>
                              (case forEach_items devices of
                                 None \<Rightarrow> Threw s1
                               | Some ds \<Rightarrow> appendDevices B ds s1)))))"

definition scanForDevices_catch :: "ref \<Rightarrow> page \<Rightarrow> page" where
  "scanForDevices_catch li s =
     (let loadingIndicator = LoadingIndicator li scan_loading_text;
          c = (if loadingIndicator \<in> set (deviceListContainer s)
               then remove1 loadingIndicator (deviceListContainer s)
               else deviceListContainer s)
      in s\<lparr>deviceListContainer := c @ [ErrorMessage scan_api_error_text]\<rparr>)"

definition scanForDevices_settled ::
  "js_builtins \<Rightarrow> ref \<Rightarrow> js_value settled \<Rightarrow> page \<Rightarrow> page" where
  "scanForDevices_settled B li outcome s =
     (case outcome of
        Rejected \<Rightarrow> scanForDevices_catch li s
      | Fulfilled data \<Rightarrow>
          (case scanForDevices_then B li data s of
             Returned s' \<Rightarrow> s'
           | Threw s' \<Rightarrow> scanForDevices_catch li s'))"

text \<open>The click handler of a connection option; \<open>method\<close> is its \<open>data-method\<close>.\<close>

definition connection_option_click :: "string \<Rightarrow> page \<Rightarrow> page" where
  "connection_option_click method s =
     (let s1 = s\<lparr>selected_option := Some method\<rparr> in
      if method = ''wifi'' then (scanForDevices ''wifi'' s1)\<lparr>deviceIPGroup_display := ''block''\<rparr>
      else if method = ''bluetooth''
        then (scanForDevices ''bluetooth'' s1)\<lparr>deviceIPGroup_display := ''none''\<rparr>
      else if method = ''camera''
        then (scanForDevices ''camera'' s1)\<lparr>deviceIPGroup_display := ''none''\<rparr>
      else if method = ''manual''
        then s1\<lparr>deviceList_display := ''none'', deviceIPGroup_display := ''block''\<rparr>
      else s1\<lparr>deviceList_display := ''none'', deviceIPGroup_display := ''none''\<rparr>)"

subsection \<open>\<open>scanBluetoothDevices\<close>\<close>

definition scanBluetoothDevices :: "page \<Rightarrow> page" where
  "scanBluetoothDevices s =
     s\<lparr>deviceListContainer := [LoadingIndicator (next_ref s) bluetooth_loading_text],
       next_ref := Suc (next_ref s),
       deviceList_display := ''block'',
       requests := requests s @ [GET (API_BASE_URL @ ''/devices/bluetooth''),
                                 GET (API_BASE_URL @ ''/devices/bluetooth/paired'')]\<rparr>"

text \<open>\<open>data.devices || []\<close>.\<close>

definition devices_or_empty :: "js_value \<Rightarrow> js_value" where
  "devices_or_empty devices = (if truthy devices then devices else Array [])"

text \<open>One section of the Bluetooth list: the items for \<open>devices.forEach\<close>, all of them
  or none (the section is attached to the page only after both loops).\<close>

definition section_device_items ::
  "js_builtins \<Rightarrow> js_value \<Rightarrow> bool \<Rightarrow> device_list_item list option" where
  "section_device_items B devices isPaired =
     (case forEach_items devices of
        None \<Rightarrow> None
      | Some ds \<Rightarrow> those (map (\<lambda>device. createDeviceListItem B device isPaired) ds))"

text \<open>
  The body of the \<open>then\<close> callback after the loading indicator has been removed; it
  writes to the page only in its last step, so \<open>None\<close> (a throw) leaves the page as it
  was.
\<close>

definition bluetooth_rendering ::
  "js_builtins \<Rightarrow> js_value \<Rightarrow> js_value \<Rightarrow> list_node option" where
  "bluetooth_rendering B availableData pairedData =
     do {
       availableError \<leftarrow> get_prop availableData ''error'';
       bothFailed \<leftarrow> (if truthy availableError
                      then map_option truthy (get_prop pairedData ''error'')
                      else Some False);
       if bothFailed then Some (ErrorMessage bluetooth_scan_error_text)
       else do {
         pairedProp \<leftarrow> get_prop pairedData ''devices'';
         availableProp \<leftarrow> get_prop availableData ''devices'';
         let pairedDevices = devices_or_empty pairedProp;
         let availableDevices = devices_or_empty availableProp;
         hasPaired \<leftarrow> length_exceeds_zero B pairedDevices;
         hasAvailable \<leftarrow> length_exceeds_zero B availableDevices;
         pairedItems \<leftarrow> (if hasPaired then section_device_items B pairedDevices True
                         else Some []);
         availableItems \<leftarrow> (if hasAvailable
                            then section_device_items B availableDevices False
                            else Some []);
         Some (BluetoothContainer
                 ((if hasPaired
                   then [BluetoothSection ''bluetooth-section paired-devices''
                           (icon_smartphone @ '' Paired devices'') pairedItems]
                   else [])
                  @ (if hasAvailable
                     then [BluetoothSection ''bluetooth-section available-devices''
                             (icon_magnifier @ '' Detected devices'') availableItems]
                     else [])
                  @ (if \<not> hasPaired \<and> \<not> hasAvailable
                     then [BluetoothNoDevices ''No Bluetooth devices found.'']
                     else [])))
       }
     }"

definition scanBluetoothDevices_then ::
  "js_builtins \<Rightarrow> ref \<Rightarrow> js_value \<Rightarrow> js_value \<Rightarrow> page \<Rightarrow> completion" where
  "scanBluetoothDevices_then B li availableData pairedData s =
     (let loadingIndicator = LoadingIndicator li bluetooth_loading_text in
      if loadingIndicator \<notin> set (deviceListContainer s) then Threw s
      else
        (let s1 = s\<lparr>deviceListContainer := remove1 loadingIndicator (deviceListContainer s)\<rparr>
         in case bluetooth_rendering B availableData pairedData of
              None \<Rightarrow> Threw s1
            | Some node \<Rightarrow> Returned (append_node node s1)))"

definition scanBluetoothDevices_catch :: "ref \<Rightarrow> page \<Rightarrow> page" where
  "scanBluetoothDevices_catch li s =
     (let loadingIndicator = LoadingIndicator li bluetooth_loading_text;
          c = (if loadingIndicator \<in> set (deviceListContainer s)
               then remove1 loadingIndicator (deviceListContainer s)
               else deviceListContainer s)
      in s\<lparr>deviceListContainer := c @ [ErrorMessage bluetooth_api_error_text]\<rparr>)"

text \<open>\<open>Promise.all\<close>: the \<open>then\<close> callback runs only when both requests are
  fulfilled; when one is rejected the \<open>catch\<close> callback runs, whatever the other
  delivered.\<close>

definition scanBluetoothDevices_settled ::
  "js_builtins \<Rightarrow> ref \<Rightarrow> js_value settled \<Rightarrow> js_value settled \<Rightarrow> page \<Rightarrow> page" where
  "scanBluetoothDevices_settled B li available paired s =
     (case (available, paired) of
        (Fulfilled availableData, Fulfilled pairedData) \<Rightarrow>
          (case scanBluetoothDevices_then B li availableData pairedData s of
             Returned s' \<Rightarrow> s'
           | Threw s' \<Rightarrow> scanBluetoothDevices_catch li s')
      | _ \<Rightarrow> scanBluetoothDevices_catch li s)"

text \<open>What a rendered list shows: its error messages and its device items.\<close>

fun error_messages :: "list_node list \<Rightarrow> string list" where
  "error_messages [] = []"
| "error_messages (ErrorMessage m # ns) = m # error_messages ns"
| "error_messages (n # ns) = error_messages ns"

fun section_items :: "bluetooth_child list \<Rightarrow> device_list_item list" where
  "section_items [] = []"
| "section_items (BluetoothSection c t items # bs) = items @ section_items bs"
| "section_items (b # bs) = section_items bs"

fun rendered_items :: "list_node list \<Rightarrow> device_list_item list" where
  "rendered_items [] = []"
| "rendered_items (DeviceListItem i # ns) = i # rendered_items ns"
| "rendered_items (BluetoothContainer bs # ns) = section_items bs @ rendered_items ns"
| "rendered_items (n # ns) = rendered_items ns"


section \<open>Example payloads\<close>

definition example_scan_device :: js_value where
  "example_scan_device =
     Object [(''id'', Str ''aa:bb''), (''name'', Str ''Office Printer''),
             (''address'', Str ''10.0.0.7'')]"


definition example_scan_response :: js_value where
  "example_scan_response = Object [(''devices'', Array [example_scan_device])]"


definition example_failed_response :: js_value where
  "example_failed_response = Object [(''error'', Str ''adapter off'')]"


section \<open>Predicates on pages\<close>

text \<open>The three category headers are children of the sidebar, as they are from
  \<open>initDeviceSections\<close> on.\<close>

definition has_sections :: "page \<Rightarrow> bool" where
  "has_sections s =
     (Category Favorites \<in> set (sidebar s) \<and> Category Online \<in> set (sidebar s)
      \<and> Category Offline \<in> set (sidebar s))"

text \<open>
  The device link \<open>r\<close> sits in the section that its attributes call for: right after
  the Favorites header when it is a favorite; otherwise right after the Online header when
  its status is \<open>online\<close>, and right after the Offline header when its status is \<open>offline\<close>.
\<close>

definition in_correct_section :: "ref \<Rightarrow> page \<Rightarrow> bool" where
  "in_correct_section r s =
     (case elements s r of
        None \<Rightarrow> False
      | Some d \<Rightarrow>
          (data_favorite d = ''true''
             \<longrightarrow> next_sibling (Category Favorites) (sidebar s) = Some (Link r))
        \<and> (data_favorite d \<noteq> ''true'' \<and> data_status d = ''online''
             \<longrightarrow> next_sibling (Category Online) (sidebar s) = Some (Link r))
        \<and> (data_favorite d \<noteq> ''true'' \<and> data_status d = ''offline''
             \<longrightarrow> next_sibling (Category Offline) (sidebar s) = Some (Link r)))"

text \<open>Every link among the children has a ref that the counter has handed out, so that
  the next element created is a new node.\<close>

definition links_allocated :: "page \<Rightarrow> bool" where
  "links_allocated s =
     list_all (\<lambda>c. case c of Link r \<Rightarrow> r < next_ref s | _ \<Rightarrow> True) (sidebar s)"

text \<open>The password map has an entry for an id exactly when a device with that id is in
  the sidebar and is marked as protected.\<close>

definition protected_ids :: "page \<Rightarrow> string set" where
  "protected_ids s =
     set (map data_device_id (filter (\<lambda>d. data_protected d = ''true'') (linked_devices s)))"

definition pw_invariant :: "page \<Rightarrow> bool" where
  "pw_invariant s = (dom (devicePasswords s) = protected_ids s)"

definition unique_ids :: "page \<Rightarrow> bool" where
  "unique_ids s = distinct (map data_device_id (linked_devices s))"


section \<open>An example session\<close>

text \<open>
  The page is loaded; a camera is added by hand, protected by a password, with the draw
  that makes it online; then a plug is added without protection, with the draw that makes
  it offline. \<open>example_page\<close> is the page that results.
\<close>

definition example_input_A :: add_input where
  "example_input_A =
     \<lparr>deviceName_value = '' Camera 1 '', passwordProtect_checked = True,
      devicePassword_value = ''s3cret'', deviceType_value = icon_camera,
      deviceIP_value = '' 10.0.0.5''\<rparr>"

definition example_input_B :: add_input where
  "example_input_B =
     \<lparr>deviceName_value = ''Plug'', passwordProtect_checked = False,
      devicePassword_value = [], deviceType_value = icon_plug,
      deviceIP_value = []\<rparr>"

definition example_trace :: "page option" where
  "example_trace =
     do {
       s0 \<leftarrow> DOMContentLoaded html_page;
       s1 \<leftarrow> confirmAddDevice example_input_A 0
               (connection_option_click ''manual'' (addDeviceButton_click 12 34 s0));
       confirmAddDevice example_input_B 1 (addDeviceButton_click 56 78 s1)
     }"

definition example_device_A :: device where
  "example_device_A =
    \<lparr>data_device_id = ''DEV_0012_0034'', data_protected = ''true'',
       data_status = ''online'', data_favorite = ''false'',
       data_device_type = icon_camera,
       data_ip = Some ''10.0.0.5'', data_manual_add = ''true'',
       status_icon_class = ''device-status status-online'',
       favorite_star = star_empty,
       favorite_star_active = False,
       device_type_icon = icon_camera,
       name_text = ''Camera 1'', lock_icon = True, filtered = False\<rparr>"

definition example_device_B :: device where
  "example_device_B =
    \<lparr>data_device_id = ''DEV_0056_0078'', data_protected = ''false'',
       data_status = ''offline'', data_favorite = ''false'',
       data_device_type = icon_plug,
       data_ip = None, data_manual_add = ''false'',
       status_icon_class = ''device-status status-offline'',
       favorite_star = star_empty,
       favorite_star_active = False,
       device_type_icon = icon_plug,
       name_text = ''Plug'', lock_icon = False, filtered = False\<rparr>"

definition example_page :: page where
  "example_page =
     \<lparr>sidebar = [Fixed ''sidebar-dropdown'', Fixed ''filters-section'',
                 Category Favorites, Category Online, Link 0, Category Offline, Link 1,
                 Fixed ''div''],
      elements = [0 \<mapsto> example_device_A, 1 \<mapsto> example_device_B],
      next_ref = 2,
      devicePasswords = [''DEV_0012_0034'' \<mapsto> ''s3cret''],
      currentActionDevice = None, currentActionType = None,
      favorites_display = ''none'', addDeviceModal_show = False,
      passwordVerifyModal_show = False, editDeviceModal_show = False,
      passwordPromptText = ''Enter password to access the device.'',
      alerts = [], deviceId_value = ''DEV_0056_0078'', editDeviceId_value = [],
      editDeviceIP_disabled = False, selected_option = None, deviceList_display = ''none'',
      deviceIPGroup_display = ''none'', deviceListContainer = [], requests = []\<rparr>"


text \<open>The example page once the delete button of the camera has been pressed: the camera
  is protected, so the password dialog is open.\<close>

definition example_delete_prompt :: page where
  "example_delete_prompt =
     example_page\<lparr>currentActionDevice := Some 0, currentActionType := Some Delete,
       passwordPromptText := ''Enter password to delete device.'',
       passwordVerifyModal_show := True\<rparr>"


text \<open>The example page once the edit button of the plug has been pressed (the plug is
  not protected, so the edit dialog opens at once), and values for the edit form.\<close>

definition example_edit_open :: page where
  "example_edit_open =
     example_page\<lparr>currentActionDevice := Some 1, currentActionType := Some Edit,
       editDeviceId_value := ''DEV_0056_0078'', editDeviceIP_disabled := True,
       editDeviceModal_show := True\<rparr>"

definition example_edit_input :: edit_input where
  "example_edit_input =
     \<lparr>editDeviceName_value = ''Plug'', editPasswordProtect_checked = True,
      editDevicePassword_value = ''pw2'', editDeviceType_value = icon_plug,
      editDeviceIP_value = []\<rparr>"

text \<open>
  A session in which \<open>generateUniqueId\<close> returns the same id twice: the camera and the
  plug of the example session are added with the same two draws for the id.
  \<open>collision_page\<close> is the page that results, \<open>collision_deleted\<close> the page after the
  plug has been deleted.
\<close>

definition collision_trace :: "page option" where
  "collision_trace =
     do {
       s0 \<leftarrow> DOMContentLoaded html_page;
       s1 \<leftarrow> confirmAddDevice example_input_A 0
               (connection_option_click ''manual'' (addDeviceButton_click 12 34 s0));
       confirmAddDevice example_input_B 1 (addDeviceButton_click 12 34 s1)
     }"

definition collision_page :: page where
  "collision_page =
     example_page\<lparr>elements := [0 \<mapsto> example_device_A,
                                1 \<mapsto> example_device_B\<lparr>data_device_id := ''DEV_0012_0034''\<rparr>],
       deviceId_value := ''DEV_0012_0034''\<rparr>"

definition collision_deleted :: page where
  "collision_deleted =
     collision_page\<lparr>sidebar := [Fixed ''sidebar-dropdown'', Fixed ''filters-section'',
                                Category Favorites, Category Online, Link 0, Category Offline,
                                Fixed ''div''],
       devicePasswords := Map.empty,
       currentActionDevice := Some 1, currentActionType := Some Delete\<rparr>"


section \<open>Sessions\<close>

text \<open>
  What can happen to the loaded page: the user's actions and the settling of a scan, in a
  browser whose builtins are \<open>B\<close>. A draw is within its range; a click on a device is a
  click on a link that is in the sidebar. Nothing else restricts the order of events, so
  the pages reached this way include, as to the children of the sidebar, the elements and
  the password map, every page that the script can produce.
\<close>

datatype event =
  AddDeviceButton nat nat
| ConnectionOption string
| ConfirmAdd add_input nat
| DeviceAction ref action bool
| ConfirmPassword string
| ConfirmEdit edit_input
| SidebarClick ref
| StarClick ref
| FilterChange bool bool string
| ScanSettled ref "js_value settled"
| CloseModal modal

fun handle :: "js_builtins \<Rightarrow> event \<Rightarrow> page \<Rightarrow> page option" where
  "handle B (AddDeviceButton r1 r2) s =
     (if r1 < 10000 \<and> r2 < 10000 then Some (addDeviceButton_click r1 r2 s) else None)"
| "handle B (ConnectionOption method) s = Some (connection_option_click method s)"
| "handle B (ConfirmAdd inp i) s = (if i < 2 then confirmAddDevice inp i s else None)"
| "handle B (DeviceAction r a confirmed) s =
     (if Link r \<in> set (sidebar s) then handleDeviceAction r a confirmed s else None)"
| "handle B (ConfirmPassword entered) s = confirmPasswordVerify entered s"
| "handle B (ConfirmEdit inp) s = confirmEditDevice inp s"
| "handle B (SidebarClick r) s =
     (if Link r \<in> set (sidebar s) then toggleDeviceStatus r s else None)"
| "handle B (StarClick r) s = (if Link r \<in> set (sidebar s) then toggleFavorite r s else None)"
| "handle B (FilterChange showAvailable showOffline ty) s =
     Some (applyFilters showAvailable showOffline ty s)"
| "handle B (ScanSettled li outcome) s = Some (scanForDevices_settled B li outcome s)"
| "handle B (CloseModal m) s = Some (closeModal m s)"

inductive reachable :: "js_builtins \<Rightarrow> page \<Rightarrow> bool" for B :: js_builtins where
  loaded: "DOMContentLoaded html_page = Some s \<Longrightarrow> reachable B s"
| step: "reachable B s \<Longrightarrow> handle B e s = Some s' \<Longrightarrow> reachable B s'"

text \<open>The headers are in place, every link in the sidebar is an element that was created,
  and every element has a ref below the counter and the status \<open>online\<close> or \<open>offline\<close>.\<close>

definition page_ok :: "page \<Rightarrow> bool" where
  "page_ok s =
     (has_sections s
      \<and> (\<forall>r. Link r \<in> set (sidebar s) \<longrightarrow> elements s r \<noteq> None)
      \<and> (\<forall>r d. elements s r = Some d \<longrightarrow>
            r < next_ref s \<and> (data_status d = ''online'' \<or> data_status d = ''offline'')))"


section \<open>Properties of the helper functions\<close>

lemma icon_of_lowered_in_icons: "icon_of_lowered n \<in> set icon_strings"
  by (simp add: icon_of_lowered_def icon_strings_def)

lemma icon_of_lowered_default:
  "\<forall>k\<in>set recognized_keywords. \<not> includes_str n k \<Longrightarrow> icon_of_lowered n = icon_smartphone"
  by (simp add: icon_of_lowered_def recognized_keywords_def)

lemma icon_strings_distinct: "distinct icon_strings \<and> length icon_strings = 7"
  by (simp add: icon_strings_def icon_smartphone_def icon_laptop_def icon_printer_def
      icon_computer_def icon_camera_def icon_plug_def icon_sensor_def)

lemma ascii_lower_examples:
  "toLowerCase ascii_builtins ''Toaster'' = ''toaster''"
  "toLowerCase ascii_builtins ''Office Printer'' = ''office printer''"
  by code_simp+

lemma ascii_icon_examples:
  "getDeviceIconByName ascii_builtins (Str ''Office Printer'') = Some icon_printer"
  "getDeviceIconByName ascii_builtins (Str ''Toaster'') = Some icon_smartphone"
  by code_simp+

text \<open>
  Claim C10, as amended. \<open>getDeviceIconByName\<close> returns a value for every name that is
  falsy (\<open>null\<close>, \<open>undefined\<close> and the empty string among them) and for every name that
  is a string: the value is one of the seven icon strings, and it is the smartphone icon
  whenever the name is falsy or its lower-cased form contains none of the recognized
  keywords. For a truthy name that is not a string (a non-zero number, \<open>true\<close>, an array,
  an object) the call \<open>name.toLowerCase()\<close> throws a \<open>TypeError\<close> and nothing is
  returned. This holds whatever \<open>toLowerCase\<close> does to a string.
\<close>

theorem getDeviceIconByName_result:
  "(\<not> truthy name \<longrightarrow> getDeviceIconByName B name = Some icon_smartphone)
   \<and> (\<forall>s. name = Str s
        \<longrightarrow> (\<exists>icon. getDeviceIconByName B name = Some icon \<and> icon \<in> set icon_strings))
   \<and> (\<forall>s. name = Str s \<and> (\<forall>k\<in>set recognized_keywords. \<not> includes_str (toLowerCase B s) k)
        \<longrightarrow> getDeviceIconByName B name = Some icon_smartphone)
   \<and> (truthy name \<and> (\<forall>s. name \<noteq> Str s) \<longrightarrow> getDeviceIconByName B name = None)"
proof (cases name)
  case (Str s)
  then show ?thesis
    using icon_of_lowered_in_icons [of "toLowerCase B s"]
      icon_of_lowered_default [of "toLowerCase B s"]
    by (simp add: getDeviceIconByName_def icon_strings_def)
qed (simp_all add: getDeviceIconByName_def icon_strings_def)

theorem getDeviceIconByName_result_witness:
  "getDeviceIconByName ascii_builtins Undefined = Some icon_smartphone
   \<and> getDeviceIconByName ascii_builtins Null = Some icon_smartphone
   \<and> getDeviceIconByName ascii_builtins (Str []) = Some icon_smartphone
   \<and> getDeviceIconByName ascii_builtins (Number ''0'') = Some icon_smartphone
   \<and> list_all (\<lambda>k. \<not> includes_str (toLowerCase ascii_builtins ''Toaster'') k) recognized_keywords
   \<and> getDeviceIconByName ascii_builtins (Str ''Toaster'') = Some icon_smartphone
   \<and> getDeviceIconByName ascii_builtins (Str ''Office Printer'') = Some icon_printer
   \<and> icon_printer \<in> set icon_strings
   \<and> truthy (Array [])
   \<and> getDeviceIconByName ascii_builtins (Array []) = None"
proof -
  have none: "\<forall>k\<in>set recognized_keywords.
                \<not> includes_str (toLowerCase ascii_builtins ''Toaster'') k"
    by (simp add: recognized_keywords_def ascii_lower_examples)
  then show ?thesis
    unfolding list_all_iff
    using getDeviceIconByName_result [of "Str ''Toaster''" ascii_builtins]
      getDeviceIconByName_result [of Undefined ascii_builtins]
      getDeviceIconByName_result [of Null ascii_builtins]
      getDeviceIconByName_result [of "Str []" ascii_builtins]
      getDeviceIconByName_result [of "Number ''0''" ascii_builtins]
      getDeviceIconByName_result [of "Array []" ascii_builtins]
      getDeviceIconByName_result [of "Str ''Office Printer''" ascii_builtins]
    by (simp add: ascii_icon_examples icon_strings_def)
qed

text \<open>
  The claim as it was stated has the function return an icon for every name. A name that is
  the number 123, \<open>true\<close> or an object is truthy, so the early return is not taken, and
  has no method \<open>toLowerCase\<close>.
\<close>

theorem getDeviceIconByName_not_total_counterexample:
  "truthy (Number ''123'')
   \<and> getDeviceIconByName ascii_builtins (Number ''123'') = None
   \<and> getDeviceIconByName ascii_builtins (Boolean True) = None
   \<and> getDeviceIconByName ascii_builtins (Object []) = None"
  by (simp add: getDeviceIconByName_def)


section \<open>Scanning: requests and rendering\<close>

lemma those_map_None:
  "those (map f xs) = None \<longleftrightarrow> (\<exists>x\<in>set xs. f x = None)"
  by (induction xs) (auto split: option.splits)




lemma scanForDevices_container:
  "deviceListContainer (scanForDevices method s) = [LoadingIndicator (next_ref s) scan_loading_text]"
  by (simp add: scanForDevices_def)



















lemma createDeviceListItem_eq:
  assumes "get_prop device ''id'' = Some ident" and "get_prop device ''type'' = Some ty"
    and "get_prop device ''name'' = Some name" and "get_prop device ''address'' = Some address"
  shows "createDeviceListItem B device isPaired =
     (case (to_String ident,
            if truthy ty then to_String ty else getDeviceIconByName B name,
            to_String (if truthy name then name else Str unknown_device_name),
            to_String (if truthy address then address else Str no_mac_address)) of
        (Some data_id, Some iconText, Some nameText, Some addressText) \<Rightarrow>
          Some \<lparr>item_data_id = data_id, item_paired = isPaired,
                item_innerHTML =
                  list_item_markup iconText nameText
                    (if isPaired then paired_badge else []) addressText\<rparr>
      | _ \<Rightarrow> None)"
  unfolding createDeviceListItem_def or_else_def
  by (simp add: assms Let_def split: option.split)

lemma createDeviceListItem_no_props:
  "get_prop device ''id'' = None \<Longrightarrow> createDeviceListItem B device isPaired = None"
  by (simp add: createDeviceListItem_def)

lemma scanBluetoothDevices_settled_Rejected:
  "deviceListContainer s = [LoadingIndicator li bluetooth_loading_text] \<Longrightarrow>
   available = Rejected \<or> paired = Rejected \<Longrightarrow>
   deviceListContainer (scanBluetoothDevices_settled B li available paired s)
     = [ErrorMessage bluetooth_api_error_text]"
  by (auto simp: scanBluetoothDevices_settled_def scanBluetoothDevices_catch_def
      split: settled.splits)

lemma scanBluetoothDevices_settled_Fulfilled:
  assumes c: "deviceListContainer s = [LoadingIndicator li bluetooth_loading_text]"
  shows "deviceListContainer
           (scanBluetoothDevices_settled B li (Fulfilled availableData) (Fulfilled pairedData) s)
         = (case bluetooth_rendering B availableData pairedData of
              None \<Rightarrow> [ErrorMessage bluetooth_api_error_text]
            | Some node \<Rightarrow> [node])"
  by (simp add: scanBluetoothDevices_settled_def scanBluetoothDevices_then_def
      scanBluetoothDevices_catch_def append_node_def c Let_def split: option.split)

lemma bluetooth_rendering_both_failed:
  "get_prop availableData ''error'' = Some ea \<Longrightarrow> get_prop pairedData ''error'' = Some ep
   \<Longrightarrow> truthy ea \<Longrightarrow> truthy ep
   \<Longrightarrow> bluetooth_rendering B availableData pairedData
       = Some (ErrorMessage bluetooth_scan_error_text)"
  by (simp add: bluetooth_rendering_def)

lemma devices_read:
  assumes "devices = Array ds
           \<or> ds = [] \<and> (\<not> truthy devices \<or> length_exceeds_zero B devices = Some False)"
  shows "length_exceeds_zero B (devices_or_empty devices) = Some (ds \<noteq> [])"
    and "ds \<noteq> [] \<Longrightarrow>
         section_device_items B (devices_or_empty devices) isPaired
           = those (map (\<lambda>device. createDeviceListItem B device isPaired) ds)"
  using assms by (auto simp: devices_or_empty_def section_device_items_def)

lemma devices_unusable:
  assumes "truthy devices" and "\<forall>ds. devices \<noteq> Array ds"
    and "length_exceeds_zero B devices \<noteq> Some False"
  shows "(case length_exceeds_zero B (devices_or_empty devices) of
            None \<Rightarrow> None
          | Some has \<Rightarrow>
              if has then section_device_items B (devices_or_empty devices) isPaired
              else Some []) = None"
proof -
  from assms(2) have "forEach_items devices = None" by (cases devices) simp_all
  with assms(1,3) show ?thesis
    by (cases "length_exceeds_zero B devices")
      (simp_all add: devices_or_empty_def section_device_items_def)
qed

lemma bluetooth_rendering_unfold:
  assumes e: "get_prop availableData ''error'' = Some ea" "get_prop pairedData ''error'' = Some ep"
      "\<not> (truthy ea \<and> truthy ep)"
    and d: "get_prop availableData ''devices'' = Some da" "get_prop pairedData ''devices'' = Some dp"
  shows "bluetooth_rendering B availableData pairedData =
     (case length_exceeds_zero B (devices_or_empty dp) of
        None \<Rightarrow> None
      | Some hasPaired \<Rightarrow>
          (case length_exceeds_zero B (devices_or_empty da) of
             None \<Rightarrow> None
           | Some hasAvailable \<Rightarrow>
               (case (if hasPaired then section_device_items B (devices_or_empty dp) True
                      else Some []) of
                  None \<Rightarrow> None
                | Some pairedItems \<Rightarrow>
                    (case (if hasAvailable
                           then section_device_items B (devices_or_empty da) False
                           else Some []) of
                       None \<Rightarrow> None
                     | Some availableItems \<Rightarrow>
                         Some (BluetoothContainer
                           ((if hasPaired
                             then [BluetoothSection ''bluetooth-section paired-devices''
                                     (icon_smartphone @ '' Paired devices'') pairedItems]
                             else [])
                            @ (if hasAvailable
                               then [BluetoothSection ''bluetooth-section available-devices''
                                       (icon_magnifier @ '' Detected devices'') availableItems]
                               else [])
                            @ (if \<not> hasPaired \<and> \<not> hasAvailable
                               then [BluetoothNoDevices ''No Bluetooth devices found.'']
                               else [])))))))"
proof -
  have both: "(if truthy ea then map_option truthy (get_prop pairedData ''error'') else Some False)
                = Some False"
    using e by auto
  show ?thesis
    unfolding bluetooth_rendering_def
    by (simp add: e(1) both d Let_def split: option.split)
qed

lemma bluetooth_rendering_lists:
  assumes e: "get_prop availableData ''error'' = Some ea" "get_prop pairedData ''error'' = Some ep"
      "\<not> (truthy ea \<and> truthy ep)"
    and d: "get_prop availableData ''devices'' = Some da" "get_prop pairedData ''devices'' = Some dp"
    and l: "da = Array ad
            \<or> ad = [] \<and> (\<not> truthy da \<or> length_exceeds_zero B da = Some False)"
      "dp = Array pd
       \<or> pd = [] \<and> (\<not> truthy dp \<or> length_exceeds_zero B dp = Some False)"
  shows "bluetooth_rendering B availableData pairedData =
     (case (those (map (\<lambda>device. createDeviceListItem B device True) pd),
            those (map (\<lambda>device. createDeviceListItem B device False) ad)) of
        (Some pairedItems, Some availableItems) \<Rightarrow>
          Some (BluetoothContainer
                 ((if pd \<noteq> []
                   then [BluetoothSection ''bluetooth-section paired-devices''
                           (icon_smartphone @ '' Paired devices'') pairedItems]
                   else [])
                  @ (if ad \<noteq> []
                     then [BluetoothSection ''bluetooth-section available-devices''
                             (icon_magnifier @ '' Detected devices'') availableItems]
                     else [])
                  @ (if pd = [] \<and> ad = []
                     then [BluetoothNoDevices ''No Bluetooth devices found.'']
                     else [])))
      | _ \<Rightarrow> None)"
proof -
  note p = devices_read [OF l(2)]
  note a = devices_read [OF l(1)]
  show ?thesis
    unfolding bluetooth_rendering_unfold [OF e d] p(1) a(1)
    by (cases "pd = []"; cases "ad = []") (simp_all add: p(2) a(2) split: option.split)
qed

lemma bluetooth_rendering_unusable:
  assumes e: "get_prop availableData ''error'' = Some ea" "get_prop pairedData ''error'' = Some ep"
      "\<not> (truthy ea \<and> truthy ep)"
    and d: "get_prop availableData ''devices'' = Some da" "get_prop pairedData ''devices'' = Some dp"
    and u: "truthy da \<and> (\<forall>ds. da \<noteq> Array ds) \<and> length_exceeds_zero B da \<noteq> Some False
            \<or> truthy dp \<and> (\<forall>ds. dp \<noteq> Array ds) \<and> length_exceeds_zero B dp \<noteq> Some False"
  shows "bluetooth_rendering B availableData pairedData = None"
proof -
  from u show ?thesis
  proof
    assume "truthy da \<and> (\<forall>ds. da \<noteq> Array ds) \<and> length_exceeds_zero B da \<noteq> Some False"
    then have "(case length_exceeds_zero B (devices_or_empty da) of
            None \<Rightarrow> None
          | Some has \<Rightarrow>
              if has then section_device_items B (devices_or_empty da) False
              else Some []) = None"
      by (intro devices_unusable) simp_all
    then show ?thesis
      unfolding bluetooth_rendering_unfold [OF e d]
      by (auto split: option.splits if_splits)
  next
    assume "truthy dp \<and> (\<forall>ds. dp \<noteq> Array ds) \<and> length_exceeds_zero B dp \<noteq> Some False"
    then have "(case length_exceeds_zero B (devices_or_empty dp) of
            None \<Rightarrow> None
          | Some has \<Rightarrow>
              if has then section_device_items B (devices_or_empty dp) True
              else Some []) = None"
      by (intro devices_unusable) simp_all
    then show ?thesis
      unfolding bluetooth_rendering_unfold [OF e d]
      by (auto split: option.splits if_splits)
  qed
qed

lemma bluetooth_rendering_no_props:
  "get_prop availableData ''error'' = None \<or> get_prop pairedData ''error'' = None \<Longrightarrow>
   bluetooth_rendering B availableData pairedData = None"
proof (cases "get_prop availableData ''error''")
  case None
  then show ?thesis by (simp add: bluetooth_rendering_def)
next
  case (Some ea)
  assume "get_prop availableData ''error'' = None \<or> get_prop pairedData ''error'' = None"
  with Some have n: "get_prop pairedData ''error'' = None" by simp
  then have "get_prop pairedData ''devices'' = None" by (cases pairedData) simp_all
  with Some n show ?thesis by (simp add: bluetooth_rendering_def)
qed

text \<open>
  Claim C5, as amended. \<open>scanBluetoothDevices\<close> requests the available and the paired
  devices and joins the two requests with \<open>Promise.all\<close>. When both are fulfilled, the
  scan error message is rendered exactly when both responses carry an error (a truthy
  \<open>error\<close>); otherwise, so also when exactly one of them does, the devices of both
  responses are rendered, the paired ones first, with no error message and nothing that
  tells of the one error, provided every item can be built. When a request is rejected,
  whatever the other one delivered, or when handling the responses throws (an item cannot
  be built, a response is \<open>null\<close>, or \<open>devices\<close> is not an array but has a positive
  length), only the API error message is rendered and no device is. A \<open>devices\<close> that
  is missing, falsy or without a positive length counts as the empty list. The items are
  those of \<open>createDeviceListItem\<close>:
  the \<open>id\<close> as \<open>data-id\<close>, the class for a paired device, and in the markup the
  \<open>type\<close> or else the icon by \<open>name\<close>, the name or else its placeholder, the badge of
  a paired device, and the address or else its placeholder.
\<close>

theorem bluetooth_join_and_render:
  "(let s0 = scanBluetoothDevices s;
        shown = (\<lambda>available paired.
                   deviceListContainer
                     (scanBluetoothDevices_settled B (next_ref s) available paired s0))
    in requests s0
         = requests s @ [GET ''http://localhost:5000/api/devices/bluetooth'',
                         GET ''http://localhost:5000/api/devices/bluetooth/paired'']
     \<and> shown Rejected paired = [ErrorMessage bluetooth_api_error_text]
     \<and> shown available Rejected = [ErrorMessage bluetooth_api_error_text]
     \<and> (\<forall>ea ep. get_prop availableData ''error'' = Some ea
            \<and> get_prop pairedData ''error'' = Some ep \<and> truthy ea \<and> truthy ep
          \<longrightarrow> shown (Fulfilled availableData) (Fulfilled pairedData)
                = [ErrorMessage bluetooth_scan_error_text])
     \<and> (\<forall>ea ep da dp ad pd.
            get_prop availableData ''error'' = Some ea \<and> get_prop pairedData ''error'' = Some ep
            \<and> \<not> (truthy ea \<and> truthy ep)
            \<and> get_prop availableData ''devices'' = Some da
            \<and> get_prop pairedData ''devices'' = Some dp
            \<and> (da = Array ad
                \<or> ad = [] \<and> (\<not> truthy da \<or> length_exceeds_zero B da = Some False))
            \<and> (dp = Array pd
                \<or> pd = [] \<and> (\<not> truthy dp \<or> length_exceeds_zero B dp = Some False))
          \<longrightarrow> (\<forall>pairedItems availableItems.
                  those (map (\<lambda>device. createDeviceListItem B device True) pd)
                    = Some pairedItems
                  \<and> those (map (\<lambda>device. createDeviceListItem B device False) ad)
                      = Some availableItems
                \<longrightarrow> shown (Fulfilled availableData) (Fulfilled pairedData)
                      = [BluetoothContainer
                           ((if pd \<noteq> []
                             then [BluetoothSection ''bluetooth-section paired-devices''
                                     (icon_smartphone @ '' Paired devices'') pairedItems]
                             else [])
                            @ (if ad \<noteq> []
                               then [BluetoothSection ''bluetooth-section available-devices''
                                       (icon_magnifier @ '' Detected devices'') availableItems]
                               else [])
                            @ (if pd = [] \<and> ad = []
                               then [BluetoothNoDevices ''No Bluetooth devices found.'']
                               else []))]
                  \<and> error_messages (shown (Fulfilled availableData) (Fulfilled pairedData)) = []
                  \<and> rendered_items (shown (Fulfilled availableData) (Fulfilled pairedData))
                      = pairedItems @ availableItems)
            \<and> ((\<exists>device\<in>set pd. createDeviceListItem B device True = None)
                \<or> (\<exists>device\<in>set ad. createDeviceListItem B device False = None)
               \<longrightarrow> shown (Fulfilled availableData) (Fulfilled pairedData)
                     = [ErrorMessage bluetooth_api_error_text]))
     \<and> (\<forall>ea ep da dp.
            get_prop availableData ''error'' = Some ea \<and> get_prop pairedData ''error'' = Some ep
            \<and> \<not> (truthy ea \<and> truthy ep)
            \<and> get_prop availableData ''devices'' = Some da
            \<and> get_prop pairedData ''devices'' = Some dp
            \<and> (truthy da \<and> (\<forall>ds. da \<noteq> Array ds)
                  \<and> length_exceeds_zero B da \<noteq> Some False
                \<or> truthy dp \<and> (\<forall>ds. dp \<noteq> Array ds)
                  \<and> length_exceeds_zero B dp \<noteq> Some False)
          \<longrightarrow> shown (Fulfilled availableData) (Fulfilled pairedData)
                = [ErrorMessage bluetooth_api_error_text])
     \<and> (get_prop availableData ''error'' = None \<or> get_prop pairedData ''error'' = None
          \<longrightarrow> shown (Fulfilled availableData) (Fulfilled pairedData)
                = [ErrorMessage bluetooth_api_error_text])
     \<and> (\<forall>ident ty name address.
           get_prop device ''id'' = Some ident \<and> get_prop device ''type'' = Some ty
           \<and> get_prop device ''name'' = Some name \<and> get_prop device ''address'' = Some address
           \<longrightarrow> createDeviceListItem B device isPaired =
                (case (to_String ident,
                       if truthy ty then to_String ty else getDeviceIconByName B name,
                       to_String (if truthy name then name else Str unknown_device_name),
                       to_String (if truthy address then address else Str no_mac_address)) of
                   (Some data_id, Some iconText, Some nameText, Some addressText) \<Rightarrow>
                     Some \<lparr>item_data_id = data_id, item_paired = isPaired,
                           item_innerHTML =
                             list_item_markup iconText nameText
                               (if isPaired then paired_badge else []) addressText\<rparr>
                 | _ \<Rightarrow> None))
     \<and> (get_prop device ''id'' = None \<longrightarrow> createDeviceListItem B device isPaired = None))"
proof -
  have c: "deviceListContainer (scanBluetoothDevices s)
             = [LoadingIndicator (next_ref s) bluetooth_loading_text]"
    by (simp add: scanBluetoothDevices_def)
  have req: "requests (scanBluetoothDevices s)
         = requests s @ [GET ''http://localhost:5000/api/devices/bluetooth'',
                         GET ''http://localhost:5000/api/devices/bluetooth/paired'']"
    by (simp add: scanBluetoothDevices_def API_BASE_URL_def)
  note f = scanBluetoothDevices_settled_Fulfilled [OF c]
  show ?thesis
    unfolding Let_def
    apply (intro conjI allI impI)
    subgoal by (rule req)
    subgoal by (rule scanBluetoothDevices_settled_Rejected [OF c]) simp
    subgoal by (rule scanBluetoothDevices_settled_Rejected [OF c]) simp
    subgoal by (elim conjE) (simp add: f bluetooth_rendering_both_failed)
    subgoal for ea ep da dp ad pd pairedItems availableItems
      by (elim conjE) (simp add: f bluetooth_rendering_lists [where ea = ea and ep = ep and da = da and dp = dp and ad = ad and pd = pd])
    subgoal for ea ep da dp ad pd pairedItems availableItems
      by (elim conjE) (simp add: f bluetooth_rendering_lists [where ea = ea and ep = ep and da = da and dp = dp and ad = ad and pd = pd])
    subgoal for ea ep da dp ad pd pairedItems availableItems
      by (elim conjE) (auto simp: f bluetooth_rendering_lists [where ea = ea and ep = ep and da = da and dp = dp and ad = ad and pd = pd])
    subgoal for ea ep da dp ad pd
    proof -
      assume a: "get_prop availableData ''error'' = Some ea
          \<and> get_prop pairedData ''error'' = Some ep \<and> \<not> (truthy ea \<and> truthy ep)
          \<and> get_prop availableData ''devices'' = Some da
          \<and> get_prop pairedData ''devices'' = Some dp
          \<and> (da = Array ad
              \<or> ad = [] \<and> (\<not> truthy da \<or> length_exceeds_zero B da = Some False))
          \<and> (dp = Array pd
              \<or> pd = [] \<and> (\<not> truthy dp \<or> length_exceeds_zero B dp = Some False))"
        and n: "(\<exists>device\<in>set pd. createDeviceListItem B device True = None)
          \<or> (\<exists>device\<in>set ad. createDeviceListItem B device False = None)"
      from n have "those (map (\<lambda>device. createDeviceListItem B device True) pd) = None
          \<or> those (map (\<lambda>device. createDeviceListItem B device False) ad) = None"
        unfolding those_map_None .
      moreover from a have "bluetooth_rendering B availableData pairedData =
         (case (those (map (\<lambda>device. createDeviceListItem B device True) pd),
                those (map (\<lambda>device. createDeviceListItem B device False) ad)) of
            (Some pairedItems, Some availableItems) \<Rightarrow>
              Some (BluetoothContainer
                     ((if pd \<noteq> []
                       then [BluetoothSection ''bluetooth-section paired-devices''
                               (icon_smartphone @ '' Paired devices'') pairedItems]
                       else [])
                      @ (if ad \<noteq> []
                         then [BluetoothSection ''bluetooth-section available-devices''
                                 (icon_magnifier @ '' Detected devices'') availableItems]
                         else [])
                      @ (if pd = [] \<and> ad = []
                         then [BluetoothNoDevices ''No Bluetooth devices found.'']
                         else [])))
          | _ \<Rightarrow> None)"
        by (intro bluetooth_rendering_lists [where ea = ea and ep = ep and da = da and dp = dp and ad = ad and pd = pd]) simp_all
      ultimately have "bluetooth_rendering B availableData pairedData = None"
        by (auto split: option.splits)
      then show ?thesis by (simp add: f)
    qed
    subgoal for ea ep da dp
      by (elim conjE) (simp add: f bluetooth_rendering_unusable [where ea = ea and ep = ep and da = da and dp = dp])
    subgoal by (simp add: f bluetooth_rendering_no_props)
    subgoal by (elim conjE, rule createDeviceListItem_eq, assumption+)
    subgoal by (rule createDeviceListItem_no_props)
    done
qed


lemma example_paired_device_item:
  "createDeviceListItem ascii_builtins example_scan_device True =
     Some \<lparr>item_data_id = ''aa:bb'', item_paired = True,
           item_innerHTML =
             list_item_markup icon_printer ''Office Printer'' paired_badge ''10.0.0.7''\<rparr>"
  by (simp add: createDeviceListItem_def example_scan_device_def ascii_icon_examples
      or_else_def)

lemma example_numbered_device_unlisted:
  "createDeviceListItem ascii_builtins (Object [(''name'', Number ''123'')]) isPaired = None"
  by (simp add: createDeviceListItem_def getDeviceIconByName_def)

theorem bluetooth_join_and_render_witness:
  "get_prop example_failed_response ''error'' = Some (Str ''adapter off'')
   \<and> get_prop example_scan_response ''error'' = Some Undefined
   \<and> get_prop example_failed_response ''devices'' = Some Undefined
   \<and> get_prop example_scan_response ''devices'' = Some (Array [example_scan_device])
   \<and> deviceListContainer
        (scanBluetoothDevices_settled ascii_builtins 0 (Fulfilled example_failed_response)
           (Fulfilled example_scan_response) (scanBluetoothDevices html_page))
      = [BluetoothContainer
           [BluetoothSection ''bluetooth-section paired-devices''
              (icon_smartphone @ '' Paired devices'')
              [\<lparr>item_data_id = ''aa:bb'', item_paired = True,
                item_innerHTML =
                  list_item_markup icon_printer ''Office Printer'' paired_badge
                    ''10.0.0.7''\<rparr>]]]
   \<and> deviceListContainer
        (scanBluetoothDevices_settled ascii_builtins 0 (Fulfilled example_failed_response)
           (Fulfilled example_failed_response) (scanBluetoothDevices html_page))
      = [ErrorMessage bluetooth_scan_error_text]
   \<and> requests (scanBluetoothDevices html_page)
      = [GET ''http://localhost:5000/api/devices/bluetooth'',
         GET ''http://localhost:5000/api/devices/bluetooth/paired'']"
proof -
  have n: "next_ref html_page = 0" "requests html_page = []" by (simp_all add: html_page_def)
  have p: "get_prop example_failed_response ''error'' = Some (Str ''adapter off'')"
    "get_prop example_scan_response ''error'' = Some Undefined"
    "get_prop example_failed_response ''devices'' = Some Undefined"
    "get_prop example_scan_response ''devices'' = Some (Array [example_scan_device])"
    by (simp_all add: example_scan_response_def example_failed_response_def)
  have i: "those (map (\<lambda>device. createDeviceListItem ascii_builtins device True)
                   [example_scan_device])
             = Some [\<lparr>item_data_id = ''aa:bb'', item_paired = True,
                      item_innerHTML =
                        list_item_markup icon_printer ''Office Printer'' paired_badge
                          ''10.0.0.7''\<rparr>]"
    "those (map (\<lambda>device. createDeviceListItem ascii_builtins device False) []) = Some []"
    by (simp_all add: example_paired_device_item)
  note t = bluetooth_join_and_render [of html_page ascii_builtins _ _ example_failed_response
      example_scan_response, unfolded Let_def n]
  from t have a: "requests (scanBluetoothDevices html_page)
      = [GET ''http://localhost:5000/api/devices/bluetooth'',
         GET ''http://localhost:5000/api/devices/bluetooth/paired'']"
    by simp
  note lists = t [THEN conjunct2, THEN conjunct2, THEN conjunct2, THEN conjunct2,
      THEN conjunct1, rule_format, THEN conjunct1, rule_format, THEN conjunct1]
  have h: "get_prop example_failed_response ''error'' = Some (Str ''adapter off'')
      \<and> get_prop example_scan_response ''error'' = Some Undefined
      \<and> \<not> (truthy (Str ''adapter off'') \<and> truthy Undefined)
      \<and> get_prop example_failed_response ''devices'' = Some Undefined
      \<and> get_prop example_scan_response ''devices'' = Some (Array [example_scan_device])
      \<and> (Undefined = Array []
          \<or> [] = [] \<and> (\<not> truthy Undefined
                        \<or> length_exceeds_zero ascii_builtins Undefined = Some False))
      \<and> (Array [example_scan_device] = Array [example_scan_device]
          \<or> [example_scan_device] = []
            \<and> (\<not> truthy (Array [example_scan_device])
                \<or> length_exceeds_zero ascii_builtins (Array [example_scan_device])
                    = Some False))"
    using p by simp
  have k: "those (map (\<lambda>device. createDeviceListItem ascii_builtins device True)
                   [example_scan_device])
             = Some [\<lparr>item_data_id = ''aa:bb'', item_paired = True,
                      item_innerHTML =
                        list_item_markup icon_printer ''Office Printer'' paired_badge
                          ''10.0.0.7''\<rparr>]
      \<and> those (map (\<lambda>device. createDeviceListItem ascii_builtins device False) [])
          = Some []"
    using i by simp
  from lists [OF h k]
  have b': "deviceListContainer
        (scanBluetoothDevices_settled ascii_builtins 0 (Fulfilled example_failed_response)
           (Fulfilled example_scan_response) (scanBluetoothDevices html_page))
      = [BluetoothContainer
           [BluetoothSection ''bluetooth-section paired-devices''
              (icon_smartphone @ '' Paired devices'')
              [\<lparr>item_data_id = ''aa:bb'', item_paired = True,
                item_innerHTML =
                  list_item_markup icon_printer ''Office Printer'' paired_badge
                    ''10.0.0.7''\<rparr>]]]"
    by simp
  from bluetooth_join_and_render [of html_page ascii_builtins _ _ example_failed_response
      example_failed_response] p
  have e: "deviceListContainer
        (scanBluetoothDevices_settled ascii_builtins 0 (Fulfilled example_failed_response)
           (Fulfilled example_failed_response) (scanBluetoothDevices html_page))
      = [ErrorMessage bluetooth_scan_error_text]"
    unfolding Let_def n by simp
  from a b' e p show ?thesis by simp
qed

text \<open>
  The claim as it was stated has the devices of one response rendered when exactly one
  request fails, and an error message only when both responses carry an error. When one
  of the two requests is rejected and the other delivers a printer, only the API error
  message is shown; and so it is when neither response carries an error and the available
  devices are \<open>[{"name": 123}]\<close>.
\<close>

theorem bluetooth_one_rejected_counterexample:
  "get_prop example_scan_response ''error'' = Some Undefined
   \<and> get_prop example_scan_response ''devices'' = Some (Array [example_scan_device])
   \<and> deviceListContainer
        (scanBluetoothDevices_settled ascii_builtins 0 Rejected
           (Fulfilled example_scan_response) (scanBluetoothDevices html_page))
      = [ErrorMessage bluetooth_api_error_text]
   \<and> deviceListContainer
        (scanBluetoothDevices_settled ascii_builtins 0 (Fulfilled example_scan_response)
           Rejected (scanBluetoothDevices html_page))
      = [ErrorMessage bluetooth_api_error_text]
   \<and> get_prop (Object [(''devices'', Array [Object [(''name'', Number ''123'')]])]) ''error''
      = Some Undefined
   \<and> deviceListContainer
        (scanBluetoothDevices_settled ascii_builtins 0
           (Fulfilled (Object [(''devices'', Array [Object [(''name'', Number ''123'')]])]))
           (Fulfilled example_scan_response) (scanBluetoothDevices html_page))
      = [ErrorMessage bluetooth_api_error_text]"
proof -
  have c: "deviceListContainer (scanBluetoothDevices html_page)
             = [LoadingIndicator 0 bluetooth_loading_text]"
    by (simp add: scanBluetoothDevices_def html_page_def)
  have r: "bluetooth_rendering ascii_builtins
             (Object [(''devices'', Array [Object [(''name'', Number ''123'')]])])
             example_scan_response = None"
    by (simp add: bluetooth_rendering_def example_scan_response_def devices_or_empty_def
        section_device_items_def example_numbered_device_unlisted)
  have p: "get_prop example_scan_response ''error'' = Some Undefined"
    "get_prop example_scan_response ''devices'' = Some (Array [example_scan_device])"
    by (simp_all add: example_scan_response_def)
  show ?thesis
    by (simp add: scanBluetoothDevices_settled_Rejected [OF c]
        scanBluetoothDevices_settled_Fulfilled [OF c] r p)
qed


section \<open>Placing device links\<close>


lemma insert_after_Some: "h \<in> set xs \<Longrightarrow> \<exists>ys. insert_after h x xs = Some ys"
  by (induction xs) auto

lemma insert_after_set: "insert_after h x xs = Some ys \<Longrightarrow> set ys = insert x (set xs)"
  by (induction xs arbitrary: ys) (auto split: if_splits)

lemma insert_after_next: "insert_after h x xs = Some ys \<Longrightarrow> next_sibling h ys = Some x"
proof (induction xs arbitrary: ys)
  case Nil
  then show ?case by simp
next
  case (Cons y xs)
  show ?case
  proof (cases "y = h")
    case True
    with Cons.prems show ?thesis by auto
  next
    case False
    with Cons.prems obtain zs where zs: "insert_after h x xs = Some zs" and ys: "ys = y # zs"
      by auto
    from Cons.IH [OF zs] have n: "next_sibling h zs = Some x" .
    then obtain z zs' where "zs = z # zs'" by (cases zs) auto
    with n False ys show ?thesis by simp
  qed
qed

lemma insertAfterSection_Some:
  assumes "Category sec \<in> set (sidebar s)"
  shows "\<exists>cs. insertAfterSection sec r s = Some (s\<lparr>sidebar := cs\<rparr>)
           \<and> next_sibling (Category sec) cs = Some (Link r)
           \<and> set cs = insert (Link r) (set (sidebar s))"
proof -
  from assms have "Category sec \<in> set (removeAll (Link r) (sidebar s))" by simp
  from insert_after_Some [OF this, of "Link r"]
  obtain cs where cs: "insert_after (Category sec) (Link r) (removeAll (Link r) (sidebar s)) = Some cs"
    by blast
  from insert_after_set [OF cs] have "set cs = insert (Link r) (set (sidebar s))" by auto
  with cs insert_after_next [OF cs] show ?thesis
    by (auto simp: insertAfterSection_def)
qed

lemma moveDeviceToCorrectSection_Some:
  assumes "has_sections s" and "elements s r = Some d"
  shows "\<exists>cs. moveDeviceToCorrectSection r s = Some (s\<lparr>sidebar := cs\<rparr>)
           \<and> set cs = insert (Link r) (set (sidebar s))
           \<and> in_correct_section r (s\<lparr>sidebar := cs\<rparr>)"
proof -
  from assms(1) have f: "Category Favorites \<in> set (sidebar s)"
    and on: "Category Online \<in> set (sidebar s)" and off: "Category Offline \<in> set (sidebar s)"
    by (simp_all add: has_sections_def)
  show ?thesis
    using insertAfterSection_Some [OF f, of r] insertAfterSection_Some [OF on, of r]
      insertAfterSection_Some [OF off, of r] assms(2) f
    by (auto simp: moveDeviceToCorrectSection_def moveDeviceToFavorites_def
        in_correct_section_def)
qed


lemma updateSectionVisibility_fields [simp]:
  "sidebar (updateSectionVisibility s) = sidebar s"
  "elements (updateSectionVisibility s) = elements s"
  "devicePasswords (updateSectionVisibility s) = devicePasswords s"
  "next_ref (updateSectionVisibility s) = next_ref s"
  "alerts (updateSectionVisibility s) = alerts s"
  by (simp_all add: updateSectionVisibility_def Let_def)

lemma in_correct_section_updateSectionVisibility [simp]:
  "in_correct_section r (updateSectionVisibility s) = in_correct_section r s"
  by (simp add: in_correct_section_def cong: option.case_cong)

lemma has_sections_elements_update [simp]:
  "has_sections (s\<lparr>elements := e\<rparr>) = has_sections s"
  by (simp add: has_sections_def)

lemma toggleDeviceStatus_result:
  assumes "has_sections s" and "elements s r = Some d"
  shows "\<exists>s'. toggleDeviceStatus r s = Some s'
           \<and> elements s' r = Some (d\<lparr>data_status :=
                  (if data_status d = ''online'' then ''offline'' else ''online''),
                status_icon_class := ''device-status status-''
                  @ (if data_status d = ''online'' then ''offline'' else ''online'')\<rparr>)
           \<and> in_correct_section r s' \<and> has_sections s'
           \<and> devicePasswords s' = devicePasswords s"
proof -
  let ?d' = "d\<lparr>data_status := (if data_status d = ''online'' then ''offline'' else ''online''),
                status_icon_class := ''device-status status-''
                  @ (if data_status d = ''online'' then ''offline'' else ''online'')\<rparr>"
  let ?s1 = "s\<lparr>elements := (elements s)(r \<mapsto> ?d')\<rparr>"
  have "has_sections ?s1" and "elements ?s1 r = Some ?d'"
    using assms by simp_all
  from moveDeviceToCorrectSection_Some [OF this]
  obtain cs where m: "moveDeviceToCorrectSection r ?s1 = Some (?s1\<lparr>sidebar := cs\<rparr>)"
    and set: "set cs = insert (Link r) (set (sidebar ?s1))"
    and ok: "in_correct_section r (?s1\<lparr>sidebar := cs\<rparr>)"
    by blast
  have t: "toggleDeviceStatus r s = Some (updateSectionVisibility (?s1\<lparr>sidebar := cs\<rparr>))"
    using assms(2) m by (simp add: toggleDeviceStatus_def Let_def)
  have "has_sections (updateSectionVisibility (?s1\<lparr>sidebar := cs\<rparr>))"
    using assms(1) set by (auto simp: has_sections_def)
  with t ok show ?thesis by simp
qed

lemma toggleFavorite_result:
  assumes "has_sections s" and "elements s r = Some d"
  shows "\<exists>s' d'. toggleFavorite r s = Some s' \<and> elements s' r = Some d'
           \<and> data_favorite d' = (if data_favorite d = ''true'' then ''false'' else ''true'')
           \<and> data_status d' = data_status d
           \<and> in_correct_section r s' \<and> has_sections s'"
proof (cases "data_favorite d = ''true''")
  case True
  let ?d' = "d\<lparr>data_favorite := ''false'', favorite_star := star_empty,
                favorite_star_active := False\<rparr>"
  let ?s1 = "s\<lparr>elements := (elements s)(r \<mapsto> ?d')\<rparr>"
  have "has_sections ?s1" and "elements ?s1 r = Some ?d'"
    using assms by simp_all
  from moveDeviceToCorrectSection_Some [OF this]
  obtain cs where m: "moveDeviceToCorrectSection r ?s1 = Some (?s1\<lparr>sidebar := cs\<rparr>)"
    and set: "set cs = insert (Link r) (set (sidebar ?s1))"
    and ok: "in_correct_section r (?s1\<lparr>sidebar := cs\<rparr>)"
    by blast
  have t: "toggleFavorite r s = Some (updateSectionVisibility (?s1\<lparr>sidebar := cs\<rparr>))"
    using assms(2) m True by (simp add: toggleFavorite_def)
  have "has_sections (updateSectionVisibility (?s1\<lparr>sidebar := cs\<rparr>))"
    using assms(1) set by (auto simp: has_sections_def)
  with t ok True show ?thesis by simp
next
  case False
  let ?d' = "d\<lparr>data_favorite := ''true'', favorite_star := star_filled,
                favorite_star_active := True\<rparr>"
  let ?s1 = "s\<lparr>elements := (elements s)(r \<mapsto> ?d')\<rparr>"
  from assms(1) have f: "Category Favorites \<in> set (sidebar ?s1)"
    by (simp add: has_sections_def)
  from insertAfterSection_Some [OF f, of r]
  obtain cs where m: "insertAfterSection Favorites r ?s1 = Some (?s1\<lparr>sidebar := cs\<rparr>)"
    and nx: "next_sibling (Category Favorites) cs = Some (Link r)"
    and set: "set cs = insert (Link r) (set (sidebar ?s1))"
    by blast
  have t: "toggleFavorite r s = Some (updateSectionVisibility (?s1\<lparr>sidebar := cs\<rparr>))"
    using assms(2) m f False by (simp add: toggleFavorite_def moveDeviceToFavorites_def)
  have "has_sections (updateSectionVisibility (?s1\<lparr>sidebar := cs\<rparr>))"
    using assms(1) set by (auto simp: has_sections_def)
  moreover have "in_correct_section r (?s1\<lparr>sidebar := cs\<rparr>)"
    using nx by (simp add: in_correct_section_def)
  ultimately show ?thesis using t False by simp
qed




section \<open>The example session\<close>








lemma page_loaded:
  "DOMContentLoaded html_page =
     Some (html_page\<lparr>sidebar := [Fixed ''sidebar-dropdown'', Fixed ''filters-section'',
                 Category Favorites, Category Online, Category Offline, Fixed ''div''],
             favorites_display := ''none''\<rparr>)"
  by (simp add: DOMContentLoaded_def initDeviceSections_def html_page_def html_sidebar_def
      applyFilters_def linked_devices_def List.map_filter_simps Let_def)

lemma generateUniqueId_examples:
  "generateUniqueId 12 34 = ''DEV_0012_0034''" "generateUniqueId 56 78 = ''DEV_0056_0078''"
  by code_simp+

lemma trim_examples:
  "trim '' Camera 1 '' = ''Camera 1''" "trim '' 10.0.0.5'' = ''10.0.0.5''"
  "trim ''Plug'' = ''Plug''" "trim [] = []"
  by code_simp+

lemma example_trace_page: "example_trace = Some example_page"
  unfolding example_trace_def page_loaded
  by (simp add: confirmAddDevice_def addDeviceButton_click_def connection_option_click_def
      generateUniqueId_examples trim_examples example_input_A_def example_input_B_def
      addDeviceToSidebar_def statuses_at_def statuses_def insertAfterSection_def
      updateSectionVisibility_def closeModal_def linked_devices_def List.map_filter_simps
      html_page_def example_page_def example_device_A_def example_device_B_def bool_attr_def
      Let_def fun_upd_twist)








section \<open>Creating devices\<close>


lemma addDeviceToSidebar_result:
  assumes "has_sections s"
  shows "\<exists>s' d. addDeviceToSidebar name ident isProtected ty ip isManuallyAdded i s = Some s'
           \<and> elements s' = (elements s)(next_ref s \<mapsto> d)
           \<and> Link (next_ref s) \<in> set (sidebar s')
           \<and> set (sidebar s') = insert (Link (next_ref s)) (set (sidebar s))
           \<and> devicePasswords s' = devicePasswords s
           \<and> alerts s' = alerts s
           \<and> next_ref s' = Suc (next_ref s)
           \<and> data_device_id d = ident
           \<and> data_protected d = bool_attr isProtected
           \<and> data_status d = statuses_at i
           \<and> data_favorite d = ''false''
           \<and> data_ip d = (if ip \<noteq> [] then Some ip else None)
           \<and> data_manual_add d = bool_attr isManuallyAdded"
proof -
  let ?d = "\<lparr>data_device_id = ident,
             data_protected = bool_attr isProtected,
             data_status = statuses_at i,
             data_favorite = ''false'',
             data_device_type = ty,
             data_ip = (if ip \<noteq> [] then Some ip else None),
             data_manual_add = bool_attr isManuallyAdded,
             status_icon_class = ''device-status status-'' @ statuses_at i,
             favorite_star = star_empty,
             favorite_star_active = False,
             device_type_icon = ty,
             name_text = name,
             lock_icon = isProtected,
             filtered = False\<rparr>"
  let ?s1 = "s\<lparr>elements := (elements s)(next_ref s \<mapsto> ?d), next_ref := Suc (next_ref s)\<rparr>"
  let ?sec = "if statuses_at i = ''online'' then Online else Offline"
  have "Category ?sec \<in> set (sidebar ?s1)"
    using assms by (simp add: has_sections_def)
  from insertAfterSection_Some [OF this, of "next_ref s"]
  obtain cs where m: "insertAfterSection ?sec (next_ref s) ?s1 = Some (?s1\<lparr>sidebar := cs\<rparr>)"
    and set: "set cs = insert (Link (next_ref s)) (set (sidebar ?s1))"
    by blast
  have "addDeviceToSidebar name ident isProtected ty ip isManuallyAdded i s
          = insertAfterSection ?sec (next_ref s) ?s1"
    by (simp add: addDeviceToSidebar_def Let_def)
  with m have "addDeviceToSidebar name ident isProtected ty ip isManuallyAdded i s
          = Some (?s1\<lparr>sidebar := cs\<rparr>)"
    by (simp only:)
  with set show ?thesis
    by (intro exI [of _ "?s1\<lparr>sidebar := cs\<rparr>"] exI [of _ ?d]) simp
qed





lemma confirmAddDevice_name_missing:
  "trim (deviceName_value inp) = []
     \<Longrightarrow> confirmAddDevice inp i s = Some (s\<lparr>alerts := alerts s @ [''Enter device name!'']\<rparr>)"
  by (simp add: confirmAddDevice_def alert_def Let_def)

lemma confirmAddDevice_password_missing:
  "trim (deviceName_value inp) \<noteq> [] \<Longrightarrow> passwordProtect_checked inp
     \<Longrightarrow> devicePassword_value inp = []
     \<Longrightarrow> confirmAddDevice inp i s
            = Some (s\<lparr>alerts := alerts s @ [''Enter password for protected device!'']\<rparr>)"
  by (simp add: confirmAddDevice_def alert_def Let_def)

lemma confirmAddDevice_ip_missing:
  "trim (deviceName_value inp) \<noteq> []
     \<Longrightarrow> \<not> (passwordProtect_checked inp \<and> devicePassword_value inp = [])
     \<Longrightarrow> selected_option s = Some ''manual'' \<Longrightarrow> trim (deviceIP_value inp) = []
     \<Longrightarrow> confirmAddDevice inp i s = Some (s\<lparr>alerts := alerts s @ [''Enter device IP!'']\<rparr>)"
  by (cases "passwordProtect_checked inp") (simp_all add: confirmAddDevice_def alert_def Let_def)

lemma confirmAddDevice_invalid:
  assumes "trim (deviceName_value inp) = []
        \<or> (passwordProtect_checked inp \<and> devicePassword_value inp = [])
        \<or> (selected_option s = Some ''manual'' \<and> trim (deviceIP_value inp) = [])"
  shows "\<exists>msg. confirmAddDevice inp i s = Some (s\<lparr>alerts := alerts s @ [msg]\<rparr>)"
proof (cases "trim (deviceName_value inp) = []")
  case True
  from confirmAddDevice_name_missing [OF this] show ?thesis by blast
next
  case name: False
  show ?thesis
  proof (cases "passwordProtect_checked inp \<and> devicePassword_value inp = []")
    case True
    with confirmAddDevice_password_missing [OF name] show ?thesis by blast
  next
    case False
    with assms name have "selected_option s = Some ''manual''" "trim (deviceIP_value inp) = []"
      by auto
    from confirmAddDevice_ip_missing [OF name False this] show ?thesis by blast
  qed
qed

text \<open>
  Claim C3. On the add-device confirm, each validation failure (the trimmed name is empty;
  protection is checked and the password is empty; the manual option is selected and the
  trimmed IP is empty) shows its alert and returns: no device is added, no password is
  stored, the modal stays as it is. The page is unchanged but for the alert.
\<close>

theorem confirmAddDevice_validation:
  "(trim (deviceName_value inp) = []
      \<longrightarrow> confirmAddDevice inp i s = Some (s\<lparr>alerts := alerts s @ [''Enter device name!'']\<rparr>))
   \<and> (trim (deviceName_value inp) \<noteq> [] \<and> passwordProtect_checked inp
        \<and> devicePassword_value inp = []
      \<longrightarrow> confirmAddDevice inp i s
            = Some (s\<lparr>alerts := alerts s @ [''Enter password for protected device!'']\<rparr>))
   \<and> (trim (deviceName_value inp) \<noteq> []
        \<and> \<not> (passwordProtect_checked inp \<and> devicePassword_value inp = [])
        \<and> selected_option s = Some ''manual'' \<and> trim (deviceIP_value inp) = []
      \<longrightarrow> confirmAddDevice inp i s = Some (s\<lparr>alerts := alerts s @ [''Enter device IP!'']\<rparr>))
   \<and> (trim (deviceName_value inp) = []
        \<or> (passwordProtect_checked inp \<and> devicePassword_value inp = [])
        \<or> (selected_option s = Some ''manual'' \<and> trim (deviceIP_value inp) = [])
      \<longrightarrow> (\<exists>msg s'. confirmAddDevice inp i s = Some s' \<and> s' = s\<lparr>alerts := alerts s @ [msg]\<rparr>
             \<and> sidebar s' = sidebar s \<and> elements s' = elements s
             \<and> devicePasswords s' = devicePasswords s
             \<and> addDeviceModal_show s' = addDeviceModal_show s))"
proof (intro conjI impI)
  assume "trim (deviceName_value inp) = []
        \<or> (passwordProtect_checked inp \<and> devicePassword_value inp = [])
        \<or> (selected_option s = Some ''manual'' \<and> trim (deviceIP_value inp) = [])"
  from confirmAddDevice_invalid [OF this, of i]
  obtain msg where "confirmAddDevice inp i s = Some (s\<lparr>alerts := alerts s @ [msg]\<rparr>)"
    by blast
  then show "\<exists>msg s'. confirmAddDevice inp i s = Some s' \<and> s' = s\<lparr>alerts := alerts s @ [msg]\<rparr>
             \<and> sidebar s' = sidebar s \<and> elements s' = elements s
             \<and> devicePasswords s' = devicePasswords s
             \<and> addDeviceModal_show s' = addDeviceModal_show s"
    by (intro exI [of _ msg] exI [of _ "s\<lparr>alerts := alerts s @ [msg]\<rparr>"]) simp
qed (simp_all add: confirmAddDevice_name_missing confirmAddDevice_password_missing
    confirmAddDevice_ip_missing)

theorem confirmAddDevice_validation_witness:
  "trim (deviceName_value (example_input_A\<lparr>deviceName_value := ''   ''\<rparr>)) = []
   \<and> confirmAddDevice (example_input_A\<lparr>deviceName_value := ''   ''\<rparr>) 0 example_page
       = Some (example_page\<lparr>alerts := [''Enter device name!'']\<rparr>)
   \<and> confirmAddDevice (example_input_A\<lparr>devicePassword_value := []\<rparr>) 0 example_page
       = Some (example_page\<lparr>alerts := [''Enter password for protected device!'']\<rparr>)
   \<and> confirmAddDevice (example_input_B\<lparr>deviceIP_value := '' ''\<rparr>) 0
         (connection_option_click ''manual'' example_page)
       = Some ((connection_option_click ''manual'' example_page)\<lparr>alerts := [''Enter device IP!'']\<rparr>)"
proof -
  have t: "trim ''   '' = []" "trim '' Camera 1 '' = ''Camera 1''" "trim ''Plug'' = ''Plug''"
    "trim '' '' = []"
    by code_simp+
  have a: "alerts example_page = []"
    "alerts (connection_option_click ''manual'' example_page) = []"
    "selected_option (connection_option_click ''manual'' example_page) = Some ''manual''"
    by (simp_all add: example_page_def connection_option_click_def)
  show ?thesis
    using confirmAddDevice_validation [of "example_input_A\<lparr>deviceName_value := ''   ''\<rparr>" 0
        example_page]
      confirmAddDevice_validation [of "example_input_A\<lparr>devicePassword_value := []\<rparr>" 0
        example_page]
      confirmAddDevice_validation [of "example_input_B\<lparr>deviceIP_value := '' ''\<rparr>" 0
        "connection_option_click ''manual'' example_page"]
    by (simp add: t a example_input_A_def example_input_B_def)
qed

lemma confirmAddDevice_success:
  assumes "trim (deviceName_value inp) \<noteq> []"
    and "\<not> (passwordProtect_checked inp \<and> devicePassword_value inp = [])"
    and "\<not> (selected_option s = Some ''manual'' \<and> trim (deviceIP_value inp) = [])"
  shows "confirmAddDevice inp i s =
           map_option (\<lambda>s2. updateSectionVisibility (closeModal AddDeviceModal s2))
             (addDeviceToSidebar (trim (deviceName_value inp)) (deviceId_value s)
                (passwordProtect_checked inp) (deviceType_value inp)
                (if selected_option s = Some ''manual'' then trim (deviceIP_value inp) else [])
                (selected_option s = Some ''manual'') i
                (if passwordProtect_checked inp
                 then s\<lparr>devicePasswords :=
                          (devicePasswords s)(deviceId_value s \<mapsto> devicePassword_value inp)\<rparr>
                 else s))"
  using assms
  by (cases "addDeviceToSidebar (trim (deviceName_value inp)) (deviceId_value s)
                (passwordProtect_checked inp) (deviceType_value inp)
                (if selected_option s = Some ''manual'' then trim (deviceIP_value inp) else [])
                (selected_option s = Some ''manual'') i
                (if passwordProtect_checked inp
                 then s\<lparr>devicePasswords :=
                          (devicePasswords s)(deviceId_value s \<mapsto> devicePassword_value inp)\<rparr>
                 else s)")
    (auto simp: confirmAddDevice_def Let_def)

lemma closeModal_fields [simp]:
  "sidebar (closeModal m s) = sidebar s"
  "elements (closeModal m s) = elements s"
  "devicePasswords (closeModal m s) = devicePasswords s"
  "next_ref (closeModal m s) = next_ref s"
  "alerts (closeModal m s) = alerts s"
  by (simp_all add: closeModal_def split: modal.splits)

lemma has_sections_devicePasswords_update [simp]:
  "has_sections (s\<lparr>devicePasswords := p\<rparr>) = has_sections s"
  by (simp add: has_sections_def)






section \<open>Password verification\<close>


lemma deleteDevice_result:
  assumes "elements s r = Some d" and "Link r \<in> set (sidebar s)"
  shows "deleteDevice r s
           = Some (s\<lparr>devicePasswords := (devicePasswords s)(data_device_id d := None),
                    sidebar := removeAll (Link r) (sidebar s)\<rparr>)"
  using assms by (simp add: deleteDevice_def)

lemma confirmPasswordVerify_mismatch:
  assumes "currentActionDevice s = Some r" and "elements s r = Some d"
    and "devicePasswords s (data_device_id d) \<noteq> Some entered"
  shows "confirmPasswordVerify entered s = Some (s\<lparr>alerts := alerts s @ [''Incorrect password!'']\<rparr>)"
  using assms by (auto simp: confirmPasswordVerify_def alert_def)

lemma confirmPasswordVerify_delete:
  assumes "currentActionDevice s = Some r" and "elements s r = Some d"
    and "devicePasswords s (data_device_id d) = Some entered"
    and "currentActionType s = Some Delete" and "Link r \<in> set (sidebar s)"
  shows "confirmPasswordVerify entered s
           = Some (updateSectionVisibility
                (s\<lparr>passwordVerifyModal_show := False,
                   devicePasswords := (devicePasswords s)(data_device_id d := None),
                   sidebar := removeAll (Link r) (sidebar s)\<rparr>))"
proof -
  have "deleteDevice r (closeModal PasswordVerifyModal s)
          = Some (s\<lparr>passwordVerifyModal_show := False,
                   devicePasswords := (devicePasswords s)(data_device_id d := None),
                   sidebar := removeAll (Link r) (sidebar s)\<rparr>)"
    using assms(2,5) by (simp add: deleteDevice_def closeModal_def)
  then show ?thesis
    using assms(1-4) by (simp add: confirmPasswordVerify_def)
qed

lemma confirmPasswordVerify_edit:
  assumes "currentActionDevice s = Some r" and "elements s r = Some d"
    and "devicePasswords s (data_device_id d) = Some entered"
    and "currentActionType s = Some Edit"
  shows "confirmPasswordVerify entered s
           = Some (s\<lparr>passwordVerifyModal_show := False,
                    editDeviceId_value := data_device_id d,
                    editDeviceIP_disabled := (data_manual_add d \<noteq> ''true''),
                    editDeviceModal_show := True\<rparr>)"
  using assms
  by (simp add: confirmPasswordVerify_def openEditDeviceModal_def closeModal_def)

text \<open>
  Claim C2. For the device that the password dialog is about, the edit or delete goes ahead
  exactly when the entered password is the string stored in the password map under the
  id of the device. When it is not, \<open>Incorrect password!\<close> is alerted and nothing else
  changes: the device is neither edited nor deleted and the password map is as before.
\<close>

theorem password_verification_gates_action:
  assumes "currentActionDevice s = Some r" and "elements s r = Some d"
    and "currentActionType s = Some a" and "Link r \<in> set (sidebar s)"
  shows "(devicePasswords s (data_device_id d) = Some entered \<longrightarrow>
            (\<exists>s'. confirmPasswordVerify entered s = Some s'
               \<and> alerts s' = alerts s \<and> \<not> passwordVerifyModal_show s'
               \<and> (a = Delete \<longrightarrow> Link r \<notin> set (sidebar s')
                     \<and> devicePasswords s' = (devicePasswords s)(data_device_id d := None))
               \<and> (a = Edit \<longrightarrow> editDeviceModal_show s'
                     \<and> editDeviceId_value s' = data_device_id d
                     \<and> sidebar s' = sidebar s \<and> devicePasswords s' = devicePasswords s)))
       \<and> (devicePasswords s (data_device_id d) \<noteq> Some entered \<longrightarrow>
            confirmPasswordVerify entered s
              = Some (s\<lparr>alerts := alerts s @ [''Incorrect password!'']\<rparr>))"
proof (intro conjI impI)
  assume ok: "devicePasswords s (data_device_id d) = Some entered"
  show "\<exists>s'. confirmPasswordVerify entered s = Some s'
               \<and> alerts s' = alerts s \<and> \<not> passwordVerifyModal_show s'
               \<and> (a = Delete \<longrightarrow> Link r \<notin> set (sidebar s')
                     \<and> devicePasswords s' = (devicePasswords s)(data_device_id d := None))
               \<and> (a = Edit \<longrightarrow> editDeviceModal_show s'
                     \<and> editDeviceId_value s' = data_device_id d
                     \<and> sidebar s' = sidebar s \<and> devicePasswords s' = devicePasswords s)"
  proof (cases a)
    case Edit
    with confirmPasswordVerify_edit [OF assms(1,2) ok] assms(3) show ?thesis by simp
  next
    case Delete
    with confirmPasswordVerify_delete [OF assms(1,2) ok _ assms(4)] assms(3) show ?thesis
      by (simp add: updateSectionVisibility_def Let_def)
  qed
next
  assume "devicePasswords s (data_device_id d) \<noteq> Some entered"
  from confirmPasswordVerify_mismatch [OF assms(1,2) this]
  show "confirmPasswordVerify entered s
          = Some (s\<lparr>alerts := alerts s @ [''Incorrect password!'']\<rparr>)" .
qed


lemma example_delete_prompt_reached:
  "handleDeviceAction 0 Delete False example_page = Some example_delete_prompt"
  by (simp add: handleDeviceAction_def example_delete_prompt_def example_page_def
      example_device_A_def)

theorem password_verification_gates_action_witness:
  "currentActionDevice example_delete_prompt = Some 0
   \<and> elements example_delete_prompt 0 = Some example_device_A
   \<and> currentActionType example_delete_prompt = Some Delete
   \<and> Link 0 \<in> set (sidebar example_delete_prompt)
   \<and> devicePasswords example_delete_prompt (data_device_id example_device_A) = Some ''s3cret''
   \<and> (\<exists>s'. confirmPasswordVerify ''s3cret'' example_delete_prompt = Some s'
          \<and> alerts s' = [] \<and> Link 0 \<notin> set (sidebar s')
          \<and> devicePasswords s' ''DEV_0012_0034'' = None)
   \<and> confirmPasswordVerify ''secret'' example_delete_prompt
       = Some (example_delete_prompt\<lparr>alerts := [''Incorrect password!'']\<rparr>)"
proof -
  have h: "currentActionDevice example_delete_prompt = Some 0"
    "elements example_delete_prompt 0 = Some example_device_A"
    "currentActionType example_delete_prompt = Some Delete"
    "Link 0 \<in> set (sidebar example_delete_prompt)"
    by (simp_all add: example_delete_prompt_def example_page_def)
  have p: "devicePasswords example_delete_prompt (data_device_id example_device_A) = Some ''s3cret''"
    "data_device_id example_device_A = ''DEV_0012_0034''"
    "alerts example_delete_prompt = []"
    by (simp_all add: example_delete_prompt_def example_page_def example_device_A_def)
  from password_verification_gates_action [OF h, of "''s3cret''"] p
  have a: "\<exists>s'. confirmPasswordVerify ''s3cret'' example_delete_prompt = Some s'
          \<and> alerts s' = [] \<and> Link 0 \<notin> set (sidebar s')
          \<and> devicePasswords s' ''DEV_0012_0034'' = None"
    by auto
  from password_verification_gates_action [OF h, of "''secret''"] p
  have b: "confirmPasswordVerify ''secret'' example_delete_prompt
       = Some (example_delete_prompt\<lparr>alerts := [''Incorrect password!'']\<rparr>)"
    by simp
  from a b h p show ?thesis by blast
qed


section \<open>The password map\<close>


lemma set_map_filter_iff: "y \<in> set (List.map_filter f xs) \<longleftrightarrow> (\<exists>x\<in>set xs. f x = Some y)"
  by (induction xs) (auto split: option.splits)

lemma set_linked_devices:
  "d \<in> set (linked_devices s) \<longleftrightarrow> (\<exists>r. Link r \<in> set (sidebar s) \<and> elements s r = Some d)"
proof -
  have "(\<exists>c\<in>set (sidebar s). (case c of Link r \<Rightarrow> elements s r | _ \<Rightarrow> None) = Some d)
          \<longleftrightarrow> (\<exists>r. Link r \<in> set (sidebar s) \<and> elements s r = Some d)"
  proof
    assume "\<exists>c\<in>set (sidebar s). (case c of Link r \<Rightarrow> elements s r | _ \<Rightarrow> None) = Some d"
    then obtain c where c: "c \<in> set (sidebar s)"
      and e: "(case c of Link r \<Rightarrow> elements s r | _ \<Rightarrow> None) = Some d"
      by blast
    show "\<exists>r. Link r \<in> set (sidebar s) \<and> elements s r = Some d"
    proof (cases c)
      case (Link r)
      with c e show ?thesis by auto
    qed (use e in simp_all)
  next
    assume "\<exists>r. Link r \<in> set (sidebar s) \<and> elements s r = Some d"
    then obtain r where "Link r \<in> set (sidebar s)" and "elements s r = Some d" by blast
    then show "\<exists>c\<in>set (sidebar s). (case c of Link r \<Rightarrow> elements s r | _ \<Rightarrow> None) = Some d"
      by (intro bexI [of _ "Link r"]) simp_all
  qed
  then show ?thesis
    by (simp add: linked_devices_def set_map_filter_iff)
qed

lemma protected_ids_iff:
  "i \<in> protected_ids s \<longleftrightarrow>
     (\<exists>r d. Link r \<in> set (sidebar s) \<and> elements s r = Some d
        \<and> data_protected d = ''true'' \<and> data_device_id d = i)"
  by (auto simp: protected_ids_def set_linked_devices)

lemma distinct_map_filter_inj:
  "distinct (map g (List.map_filter f xs)) \<Longrightarrow> x \<in> set xs \<Longrightarrow> y \<in> set xs
     \<Longrightarrow> f x = Some a \<Longrightarrow> f y = Some b \<Longrightarrow> g a = g b \<Longrightarrow> x = y"
proof (induction xs)
  case Nil
  then show ?case by simp
next
  case (Cons z zs)
  show ?case
  proof (cases "f z")
    case None
    with Cons show ?thesis by auto
  next
    case (Some c)
    with Cons.prems(1) have d: "distinct (map g (List.map_filter f zs))"
      and n: "g c \<notin> g ` set (List.map_filter f zs)"
      by simp_all
    have out: "g e \<noteq> g c" if "w \<in> set zs" and "f w = Some e" for w e
    proof -
      from that have "e \<in> set (List.map_filter f zs)"
        unfolding set_map_filter_iff by blast
      with n show ?thesis by (metis image_eqI)
    qed
    show ?thesis
    proof (cases "x = z")
      case xz: True
      show ?thesis
      proof (cases "y = z")
        case True
        with xz show ?thesis by simp
      next
        case False
        with Cons.prems(3) have "y \<in> set zs" by simp
        from out [OF this Cons.prems(5)] xz Some Cons.prems(4,6) show ?thesis by simp
      qed
    next
      case xz: False
      with Cons.prems(2) have xin: "x \<in> set zs" by simp
      show ?thesis
      proof (cases "y = z")
        case True
        from out [OF xin Cons.prems(4)] True Some Cons.prems(5,6) show ?thesis by simp
      next
        case False
        with Cons.prems(3) have "y \<in> set zs" by simp
        from Cons.IH [OF d xin this Cons.prems(4,5,6)] show ?thesis .
      qed
    qed
  qed
qed

lemma unique_ids_same_link:
  assumes "unique_ids s" and "Link r1 \<in> set (sidebar s)" and "Link r2 \<in> set (sidebar s)"
    and "elements s r1 = Some d1" and "elements s r2 = Some d2"
    and "data_device_id d1 = data_device_id d2"
  shows "r1 = r2"
proof -
  have "Link r1 = Link r2"
    using assms
    by (intro distinct_map_filter_inj [where g = data_device_id
          and f = "\<lambda>c. case c of Link r \<Rightarrow> elements s r | _ \<Rightarrow> None"
          and xs = "sidebar s" and a = d1 and b = d2])
      (simp_all add: unique_ids_def linked_devices_def)
  then show ?thesis by simp
qed

lemma pw_invariant_iff:
  "pw_invariant s \<longleftrightarrow>
     (\<forall>i. i \<in> dom (devicePasswords s) \<longleftrightarrow>
        (\<exists>r d. Link r \<in> set (sidebar s) \<and> elements s r = Some d
           \<and> data_protected d = ''true'' \<and> data_device_id d = i))"
  unfolding pw_invariant_def set_eq_iff protected_ids_iff ..

lemma pw_invariant_cong:
  "set (sidebar s') = set (sidebar s) \<Longrightarrow> elements s' = elements s
     \<Longrightarrow> devicePasswords s' = devicePasswords s \<Longrightarrow> pw_invariant s' = pw_invariant s"
  by (simp add: pw_invariant_iff)

lemma pw_invariant_alert [simp]: "pw_invariant (alert msg s) = pw_invariant s"
  by (rule pw_invariant_cong) (simp_all add: alert_def)

lemma links_allocated_fresh: "links_allocated s \<Longrightarrow> Link (next_ref s) \<notin> set (sidebar s)"
  by (auto simp: links_allocated_def list_all_iff)


lemma pw_invariant_add:
  assumes inv: "pw_invariant s" and fresh: "Link n \<notin> set (sidebar s)"
    and sb: "set (sidebar s') = insert (Link n) (set (sidebar s))"
    and el: "elements s' = (elements s)(n \<mapsto> d)"
    and pw: "devicePasswords s' =
               (if isProtected then (devicePasswords s)(data_device_id d \<mapsto> p)
                else devicePasswords s)"
    and pr: "data_protected d = bool_attr isProtected"
  shows "pw_invariant s'"
  unfolding pw_invariant_iff
proof
  fix i
  have old: "(\<exists>r e. Link r \<in> set (sidebar s') \<and> r \<noteq> n \<and> elements s' r = Some e
                \<and> data_protected e = ''true'' \<and> data_device_id e = i)
             \<longleftrightarrow> i \<in> dom (devicePasswords s)"
    using inv fresh unfolding pw_invariant_iff sb el by auto
  have new: "(\<exists>e. Link n \<in> set (sidebar s') \<and> elements s' n = Some e
                \<and> data_protected e = ''true'' \<and> data_device_id e = i)
             \<longleftrightarrow> isProtected \<and> i = data_device_id d"
    unfolding sb el using pr by (auto simp: bool_attr_def)
  have "(\<exists>r e. Link r \<in> set (sidebar s') \<and> elements s' r = Some e
                \<and> data_protected e = ''true'' \<and> data_device_id e = i)
        \<longleftrightarrow> i \<in> dom (devicePasswords s) \<or> (isProtected \<and> i = data_device_id d)"
    using old new by metis
  moreover have "i \<in> dom (devicePasswords s')
        \<longleftrightarrow> i \<in> dom (devicePasswords s) \<or> (isProtected \<and> i = data_device_id d)"
    unfolding pw by auto
  ultimately show "i \<in> dom (devicePasswords s')
        \<longleftrightarrow> (\<exists>r e. Link r \<in> set (sidebar s') \<and> elements s' r = Some e
                \<and> data_protected e = ''true'' \<and> data_device_id e = i)"
    by simp
qed

lemma others_protected:
  assumes inv: "pw_invariant s" and uniq: "unique_ids s"
    and link: "Link r \<in> set (sidebar s)" and el: "elements s r = Some d"
  shows "(\<exists>r' e. Link r' \<in> set (sidebar s) \<and> r' \<noteq> r \<and> elements s r' = Some e
            \<and> data_protected e = ''true'' \<and> data_device_id e = i)
         \<longleftrightarrow> i \<in> dom (devicePasswords s) \<and> i \<noteq> data_device_id d"
proof
  assume "\<exists>r' e. Link r' \<in> set (sidebar s) \<and> r' \<noteq> r \<and> elements s r' = Some e
            \<and> data_protected e = ''true'' \<and> data_device_id e = i"
  then obtain r' e where l': "Link r' \<in> set (sidebar s)" and ne: "r' \<noteq> r"
    and e': "elements s r' = Some e" and p: "data_protected e = ''true''"
    and i: "data_device_id e = i"
    by blast
  from inv l' e' p i have "i \<in> dom (devicePasswords s)"
    unfolding pw_invariant_iff by blast
  moreover have "i \<noteq> data_device_id d"
    using unique_ids_same_link [OF uniq l' link e' el] ne i by auto
  ultimately show "i \<in> dom (devicePasswords s) \<and> i \<noteq> data_device_id d" ..
next
  assume a: "i \<in> dom (devicePasswords s) \<and> i \<noteq> data_device_id d"
  with inv obtain r' e where l': "Link r' \<in> set (sidebar s)"
    and e': "elements s r' = Some e" and p: "data_protected e = ''true''"
    and i: "data_device_id e = i"
    unfolding pw_invariant_iff by blast
  from a i e' el have "r' \<noteq> r" by auto
  with l' e' p i show "\<exists>r' e. Link r' \<in> set (sidebar s) \<and> r' \<noteq> r \<and> elements s r' = Some e
            \<and> data_protected e = ''true'' \<and> data_device_id e = i"
    by blast
qed

lemma pw_invariant_delete:
  assumes inv: "pw_invariant s" and uniq: "unique_ids s"
    and link: "Link r \<in> set (sidebar s)" and el: "elements s r = Some d"
  shows "pw_invariant (s\<lparr>devicePasswords := (devicePasswords s)(data_device_id d := None),
                         sidebar := removeAll (Link r) (sidebar s)\<rparr>)"
  unfolding pw_invariant_iff
proof
  fix i
  let ?s' = "s\<lparr>devicePasswords := (devicePasswords s)(data_device_id d := None),
               sidebar := removeAll (Link r) (sidebar s)\<rparr>"
  have "(\<exists>r' e. Link r' \<in> set (sidebar ?s') \<and> elements ?s' r' = Some e
            \<and> data_protected e = ''true'' \<and> data_device_id e = i)
        \<longleftrightarrow> (\<exists>r' e. Link r' \<in> set (sidebar s) \<and> r' \<noteq> r \<and> elements s r' = Some e
            \<and> data_protected e = ''true'' \<and> data_device_id e = i)"
    by auto
  also have "\<dots> \<longleftrightarrow> i \<in> dom (devicePasswords s) \<and> i \<noteq> data_device_id d"
    by (rule others_protected [OF inv uniq link el])
  also have "\<dots> \<longleftrightarrow> i \<in> dom (devicePasswords ?s')"
    by auto
  finally show "i \<in> dom (devicePasswords ?s')
        \<longleftrightarrow> (\<exists>r' e. Link r' \<in> set (sidebar ?s') \<and> elements ?s' r' = Some e
            \<and> data_protected e = ''true'' \<and> data_device_id e = i)"
    by simp
qed

lemma pw_invariant_edit:
  assumes inv: "pw_invariant s" and uniq: "unique_ids s"
    and link: "Link r \<in> set (sidebar s)" and el: "elements s r = Some d"
    and sb: "set (sidebar s') = set (sidebar s)"
    and el': "elements s' = (elements s)(r \<mapsto> d')"
    and ident: "data_device_id d' = data_device_id d"
    and pr: "data_protected d' = bool_attr isProtected"
    and pw: "dom (devicePasswords s') =
               (if isProtected then insert (data_device_id d) (dom (devicePasswords s))
                else dom (devicePasswords s) - {data_device_id d})"
  shows "pw_invariant s'"
  unfolding pw_invariant_iff
proof
  fix i
  have oth: "(\<exists>r' e. Link r' \<in> set (sidebar s') \<and> r' \<noteq> r \<and> elements s' r' = Some e
                \<and> data_protected e = ''true'' \<and> data_device_id e = i)
             \<longleftrightarrow> i \<in> dom (devicePasswords s) \<and> i \<noteq> data_device_id d"
    using others_protected [OF inv uniq link el, of i] unfolding sb el' by auto
  have new: "(\<exists>e. Link r \<in> set (sidebar s') \<and> elements s' r = Some e
                \<and> data_protected e = ''true'' \<and> data_device_id e = i)
             \<longleftrightarrow> isProtected \<and> i = data_device_id d"
    unfolding sb el' using pr ident link by (auto simp: bool_attr_def)
  have "(\<exists>r' e. Link r' \<in> set (sidebar s') \<and> elements s' r' = Some e
                \<and> data_protected e = ''true'' \<and> data_device_id e = i)
        \<longleftrightarrow> (i \<in> dom (devicePasswords s) \<and> i \<noteq> data_device_id d)
            \<or> (isProtected \<and> i = data_device_id d)"
    using oth new by metis
  moreover have "i \<in> dom (devicePasswords s')
        \<longleftrightarrow> (i \<in> dom (devicePasswords s) \<and> i \<noteq> data_device_id d)
            \<or> (isProtected \<and> i = data_device_id d)"
    unfolding pw by auto
  ultimately show "i \<in> dom (devicePasswords s')
        \<longleftrightarrow> (\<exists>r' e. Link r' \<in> set (sidebar s') \<and> elements s' r' = Some e
                \<and> data_protected e = ''true'' \<and> data_device_id e = i)"
    by simp
qed


lemma updateDeviceInSidebar_result:
  assumes "has_sections s" and "elements s r = Some d"
  shows "\<exists>cs d'. updateDeviceInSidebar r name ident isProtected ty ip m s
                   = Some (s\<lparr>elements := (elements s)(r \<mapsto> d'), sidebar := cs\<rparr>)
           \<and> set cs = insert (Link r) (set (sidebar s))
           \<and> data_device_id d' = data_device_id d
           \<and> data_protected d' = bool_attr isProtected
           \<and> data_status d' = data_status d
           \<and> data_favorite d' = data_favorite d"
proof -
  let ?d1 = "d\<lparr>data_device_type := ty,
                data_ip := (if ip \<noteq> [] then Some ip else None)\<rparr>"
  let ?d2 = "case m of None \<Rightarrow> ?d1 | Some b \<Rightarrow> ?d1\<lparr>data_manual_add := bool_attr b\<rparr>"
  let ?d3 = "?d2\<lparr>status_icon_class := ''device-status status-'' @ data_status d,
                   favorite_star := (if data_favorite d = ''true'' then star_filled else star_empty),
                   favorite_star_active := (data_favorite d = ''true''),
                   device_type_icon := ty,
                   name_text := name,
                   lock_icon := isProtected,
                   data_protected := bool_attr isProtected\<rparr>"
  let ?s1 = "s\<lparr>elements := (elements s)(r \<mapsto> ?d3)\<rparr>"
  have u: "updateDeviceInSidebar r name ident isProtected ty ip m s
             = moveDeviceToCorrectSection r ?s1"
    using assms(2) by (simp add: updateDeviceInSidebar_def Let_def)
  have "has_sections ?s1" and "elements ?s1 r = Some ?d3"
    using assms(1) by simp_all
  from moveDeviceToCorrectSection_Some [OF this]
  obtain cs where mv: "moveDeviceToCorrectSection r ?s1 = Some (?s1\<lparr>sidebar := cs\<rparr>)"
    and set: "set cs = insert (Link r) (set (sidebar ?s1))"
    by blast
  have props: "data_device_id ?d3 = data_device_id d \<and> data_protected ?d3 = bool_attr isProtected
      \<and> data_status ?d3 = data_status d \<and> data_favorite ?d3 = data_favorite d"
    by (cases m) simp_all
  from u mv set props show ?thesis
    by (intro exI [of _ cs] exI [of _ ?d3]) simp
qed

lemma alert_fields [simp]:
  "sidebar (alert msg s) = sidebar s"
  "elements (alert msg s) = elements s"
  "devicePasswords (alert msg s) = devicePasswords s"
  "next_ref (alert msg s) = next_ref s"
  "alerts (alert msg s) = alerts s @ [msg]"
  by (simp_all add: alert_def)

lemma pw_invariant_view [simp]:
  "pw_invariant (updateSectionVisibility s) = pw_invariant s"
  "pw_invariant (closeModal m s) = pw_invariant s"
  by (rule pw_invariant_cong; simp)+

lemma confirmAddDevice_preserves:
  assumes inv: "pw_invariant s" and secs: "has_sections s" and alloc: "links_allocated s"
  shows "\<exists>s'. confirmAddDevice inp i s = Some s' \<and> pw_invariant s'
           \<and> (devicePasswords s' = devicePasswords s
               \<or> passwordProtect_checked inp \<and> devicePassword_value inp \<noteq> []
                 \<and> devicePasswords s'
                     = (devicePasswords s)(deviceId_value s \<mapsto> devicePassword_value inp))"
proof (cases "trim (deviceName_value inp) = []
        \<or> (passwordProtect_checked inp \<and> devicePassword_value inp = [])
        \<or> (selected_option s = Some ''manual'' \<and> trim (deviceIP_value inp) = [])")
  case True
  from confirmAddDevice_invalid [OF this, of i]
  obtain msg where "confirmAddDevice inp i s = Some (alert msg s)"
    unfolding alert_def by blast
  then show ?thesis by (simp add: inv)
next
  case False
  let ?s1 = "if passwordProtect_checked inp
                 then s\<lparr>devicePasswords :=
                          (devicePasswords s)(deviceId_value s \<mapsto> devicePassword_value inp)\<rparr>
                 else s"
  have h: "has_sections ?s1" and n: "next_ref ?s1 = next_ref s"
    and sb1: "sidebar ?s1 = sidebar s" and el1: "elements ?s1 = elements s"
    using secs by simp_all
  from addDeviceToSidebar_result [OF h, of "trim (deviceName_value inp)" "deviceId_value s"
      "passwordProtect_checked inp" "deviceType_value inp"
      "if selected_option s = Some ''manual'' then trim (deviceIP_value inp) else []"
      "selected_option s = Some ''manual''" i]
  obtain s2 d where a: "addDeviceToSidebar (trim (deviceName_value inp)) (deviceId_value s)
                (passwordProtect_checked inp) (deviceType_value inp)
                (if selected_option s = Some ''manual'' then trim (deviceIP_value inp) else [])
                (selected_option s = Some ''manual'') i ?s1 = Some s2"
    and e: "elements s2 = (elements ?s1)(next_ref ?s1 \<mapsto> d)"
    and sb: "set (sidebar s2) = insert (Link (next_ref ?s1)) (set (sidebar ?s1))"
    and pw: "devicePasswords s2 = devicePasswords ?s1"
    and ident: "data_device_id d = deviceId_value s"
    and pr: "data_protected d = bool_attr (passwordProtect_checked inp)"
    by blast
  have c: "confirmAddDevice inp i s
             = Some (updateSectionVisibility (closeModal AddDeviceModal s2))"
    using confirmAddDevice_success [of inp s i] False a by simp
  have "pw_invariant s2"
  proof (rule pw_invariant_add [OF inv links_allocated_fresh [OF alloc]])
    show "set (sidebar s2) = insert (Link (next_ref s)) (set (sidebar s))"
      using sb n sb1 by simp
    show "elements s2 = (elements s)(next_ref s \<mapsto> d)"
      using e n el1 by simp
    show "devicePasswords s2 =
               (if passwordProtect_checked inp
                then (devicePasswords s)(data_device_id d \<mapsto> devicePassword_value inp)
                else devicePasswords s)"
      using pw ident by simp
    show "data_protected d = bool_attr (passwordProtect_checked inp)" by (rule pr)
  qed
  with c pw False show ?thesis by auto
qed

lemma deleteDevice_preserves:
  assumes "pw_invariant s" and "unique_ids s"
    and "Link r \<in> set (sidebar s)" and "elements s r = Some d"
  shows "\<exists>s'. deleteDevice r s = Some s' \<and> pw_invariant s'
           \<and> devicePasswords s' = (devicePasswords s)(data_device_id d := None)"
  using deleteDevice_result [OF assms(4,3)] pw_invariant_delete [OF assms] by simp


lemma bind_Some_map_option: "(x \<bind> (\<lambda>y. Some (f y))) = map_option f x"
  by (cases x) simp_all

lemma confirmEditDevice_unfold:
  assumes cur: "currentActionDevice s = Some r" and el: "elements s r = Some d"
  shows "confirmEditDevice einp s =
     (let name = trim (editDeviceName_value einp);
          stored = (case devicePasswords s (editDeviceId_value s) of None \<Rightarrow> [] | Some p \<Rightarrow> p);
          ip = (if \<not> editDeviceIP_disabled s then trim (editDeviceIP_value einp)
                else (case data_ip d of None \<Rightarrow> [] | Some a \<Rightarrow> a))
      in if name = [] then Some (alert ''Enter device name!'' s)
         else if editPasswordProtect_checked einp \<and> editDevicePassword_value einp = []
                 \<and> stored = []
           then Some (alert ''Enter password for protected device!'' s)
         else if data_manual_add d = ''true'' \<and> ip = [] then Some (alert ''Enter device IP!'' s)
         else map_option (\<lambda>s2. updateSectionVisibility (closeModal EditDeviceModal s2))
                (updateDeviceInSidebar r name (editDeviceId_value s)
                   (editPasswordProtect_checked einp) (editDeviceType_value einp) ip
                   (Some (data_manual_add d = ''true''))
                   (s\<lparr>devicePasswords :=
                        (if editPasswordProtect_checked einp
                         then (if editDevicePassword_value einp \<noteq> []
                               then (devicePasswords s)
                                      (editDeviceId_value s \<mapsto> editDevicePassword_value einp)
                               else devicePasswords s)
                         else (devicePasswords s)(editDeviceId_value s := None))\<rparr>)))"
  by (simp add: confirmEditDevice_def Let_def cur el bind_Some_map_option)

lemma confirmEditDevice_preserves:
  assumes inv: "pw_invariant s" and secs: "has_sections s" and uniq: "unique_ids s"
    and link: "Link r \<in> set (sidebar s)" and el: "elements s r = Some d"
    and cur: "currentActionDevice s = Some r"
    and ident: "editDeviceId_value s = data_device_id d"
  shows "\<exists>s'. confirmEditDevice einp s = Some s' \<and> pw_invariant s'
           \<and> (devicePasswords s' = devicePasswords s
               \<or> editPasswordProtect_checked einp \<and> editDevicePassword_value einp \<noteq> []
                 \<and> devicePasswords s'
                     = (devicePasswords s)(data_device_id d \<mapsto> editDevicePassword_value einp)
               \<or> \<not> editPasswordProtect_checked einp
                 \<and> devicePasswords s' = (devicePasswords s)(data_device_id d := None))"
proof -
  let ?name = "trim (editDeviceName_value einp)"
  let ?stored = "case devicePasswords s (editDeviceId_value s) of None \<Rightarrow> [] | Some p \<Rightarrow> p"
  let ?ip = "if \<not> editDeviceIP_disabled s then trim (editDeviceIP_value einp)
             else (case data_ip d of None \<Rightarrow> [] | Some a \<Rightarrow> a)"
  let ?prot = "editPasswordProtect_checked einp"
  let ?pws = "if ?prot
              then (if editDevicePassword_value einp \<noteq> []
                    then (devicePasswords s)
                           (editDeviceId_value s \<mapsto> editDevicePassword_value einp)
                    else devicePasswords s)
              else (devicePasswords s)(editDeviceId_value s := None)"
  let ?fails = "?name = [] \<or> (?prot \<and> editDevicePassword_value einp = [] \<and> ?stored = [])
                \<or> (data_manual_add d = ''true'' \<and> ?ip = [])"
  show ?thesis
  proof (cases ?fails)
    case True
    then have "\<exists>msg. confirmEditDevice einp s = Some (alert msg s)"
      unfolding confirmEditDevice_unfold [OF cur el] Let_def by auto
    then obtain msg where "confirmEditDevice einp s = Some (alert msg s)" ..
    then show ?thesis by (simp add: inv)
  next
    case False
    let ?s1 = "s\<lparr>devicePasswords := ?pws\<rparr>"
    have h: "has_sections ?s1" and e1: "elements ?s1 r = Some d"
      using secs el by simp_all
    from updateDeviceInSidebar_result [OF h e1, of ?name "editDeviceId_value s" ?prot
        "editDeviceType_value einp" ?ip "Some (data_manual_add d = ''true'')"]
    obtain cs d' where u: "updateDeviceInSidebar r ?name (editDeviceId_value s) ?prot
                 (editDeviceType_value einp) ?ip (Some (data_manual_add d = ''true'')) ?s1
               = Some (?s1\<lparr>elements := (elements ?s1)(r \<mapsto> d'), sidebar := cs\<rparr>)"
      and set: "set cs = insert (Link r) (set (sidebar ?s1))"
      and id': "data_device_id d' = data_device_id d"
      and pr': "data_protected d' = bool_attr ?prot"
      by blast
    let ?s2 = "?s1\<lparr>elements := (elements ?s1)(r \<mapsto> d'), sidebar := cs\<rparr>"
    from False have n1: "?name \<noteq> []"
      and n2: "\<not> (?prot \<and> editDevicePassword_value einp = [] \<and> ?stored = [])"
      and n3: "\<not> (data_manual_add d = ''true'' \<and> ?ip = [])"
      by blast+
    have "confirmEditDevice einp s
            = map_option (\<lambda>s2. updateSectionVisibility (closeModal EditDeviceModal s2))
                (updateDeviceInSidebar r ?name (editDeviceId_value s) ?prot
                   (editDeviceType_value einp) ?ip (Some (data_manual_add d = ''true'')) ?s1)"
      unfolding confirmEditDevice_unfold [OF cur el] Let_def
      by (simp only: n1 n2 n3 if_False)
    then have c: "confirmEditDevice einp s
               = Some (updateSectionVisibility (closeModal EditDeviceModal ?s2))"
      by (simp only: u option.map)
    have stored: "?prot \<Longrightarrow> editDevicePassword_value einp = []
                    \<Longrightarrow> data_device_id d \<in> dom (devicePasswords s)"
      using False ident by (auto split: option.splits)
    have "pw_invariant ?s2"
    proof (rule pw_invariant_edit [OF inv uniq link el])
      show "set (sidebar ?s2) = set (sidebar s)" using set link by auto
      show "elements ?s2 = (elements s)(r \<mapsto> d')" by simp
      show "data_device_id d' = data_device_id d" by (rule id')
      show "data_protected d' = bool_attr ?prot" by (rule pr')
      show "dom (devicePasswords ?s2) =
               (if ?prot then insert (data_device_id d) (dom (devicePasswords s))
                else dom (devicePasswords s) - {data_device_id d})"
        using stored ident by auto
    qed
    moreover have "devicePasswords ?s2 = ?pws" by simp
    ultimately show ?thesis
      using c ident by auto
  qed
qed


lemma edit_dialog_opened:
  assumes "elements s r = Some d" and "data_protected d \<noteq> ''true''"
  shows "\<exists>s'. handleDeviceAction r Edit confirmed s = Some s'
           \<and> currentActionDevice s' = Some r
           \<and> editDeviceId_value s' = data_device_id d
           \<and> editDeviceModal_show s'
           \<and> sidebar s' = sidebar s \<and> elements s' = elements s
           \<and> devicePasswords s' = devicePasswords s"
  using assms by (simp add: handleDeviceAction_def openEditDeviceModal_def)

text \<open>
  Take a page, with its headers in place and its links created by the script, on which the
  password map has an entry for an id exactly when a device with that id is in the sidebar
  and is marked as protected. Adding a device keeps this so, and stores the password only
  when protection is checked. While the ids of the devices in the sidebar are pairwise
  distinct, deleting a device keeps it so and removes the entry for the id of the deleted
  device; and, when the edit form holds the id of the device being edited (as it does once
  the edit dialog has been opened for it, lemma \<open>edit_dialog_opened\<close>), saving an edit
  keeps it so: the entry is removed when protection is unchecked, replaced when a new
  password is given, and kept when protection is checked and the new password is empty.
\<close>

lemma pw_invariant_preserved:
  assumes "pw_invariant s" and "has_sections s" and "links_allocated s"
  shows "(\<exists>s'. confirmAddDevice inp i s = Some s' \<and> pw_invariant s'
            \<and> (devicePasswords s' = devicePasswords s
                \<or> passwordProtect_checked inp \<and> devicePassword_value inp \<noteq> []
                  \<and> devicePasswords s'
                      = (devicePasswords s)(deviceId_value s \<mapsto> devicePassword_value inp)))
       \<and> (unique_ids s \<and> Link r \<in> set (sidebar s) \<and> elements s r = Some d
            \<longrightarrow> (\<exists>s'. deleteDevice r s = Some s' \<and> pw_invariant s'
                   \<and> devicePasswords s' = (devicePasswords s)(data_device_id d := None)))
       \<and> (unique_ids s \<and> Link r \<in> set (sidebar s) \<and> elements s r = Some d
             \<and> currentActionDevice s = Some r \<and> editDeviceId_value s = data_device_id d
            \<longrightarrow> (\<exists>s'. confirmEditDevice einp s = Some s' \<and> pw_invariant s'
                   \<and> (devicePasswords s' = devicePasswords s
                       \<or> editPasswordProtect_checked einp \<and> editDevicePassword_value einp \<noteq> []
                         \<and> devicePasswords s'
                             = (devicePasswords s)
                                 (data_device_id d \<mapsto> editDevicePassword_value einp)
                       \<or> \<not> editPasswordProtect_checked einp
                         \<and> devicePasswords s' = (devicePasswords s)(data_device_id d := None))))"
proof (intro conjI impI)
  show "\<exists>s'. confirmAddDevice inp i s = Some s' \<and> pw_invariant s'
            \<and> (devicePasswords s' = devicePasswords s
                \<or> passwordProtect_checked inp \<and> devicePassword_value inp \<noteq> []
                  \<and> devicePasswords s'
                      = (devicePasswords s)(deviceId_value s \<mapsto> devicePassword_value inp))"
    by (rule confirmAddDevice_preserves [OF assms])
next
  assume "unique_ids s \<and> Link r \<in> set (sidebar s) \<and> elements s r = Some d"
  then show "\<exists>s'. deleteDevice r s = Some s' \<and> pw_invariant s'
                   \<and> devicePasswords s' = (devicePasswords s)(data_device_id d := None)"
    using deleteDevice_preserves [OF assms(1), of r d] by blast
next
  assume "unique_ids s \<and> Link r \<in> set (sidebar s) \<and> elements s r = Some d
             \<and> currentActionDevice s = Some r \<and> editDeviceId_value s = data_device_id d"
  then show "\<exists>s'. confirmEditDevice einp s = Some s' \<and> pw_invariant s'
                   \<and> (devicePasswords s' = devicePasswords s
                       \<or> editPasswordProtect_checked einp \<and> editDevicePassword_value einp \<noteq> []
                         \<and> devicePasswords s'
                             = (devicePasswords s)
                                 (data_device_id d \<mapsto> editDevicePassword_value einp)
                       \<or> \<not> editPasswordProtect_checked einp
                         \<and> devicePasswords s' = (devicePasswords s)(data_device_id d := None))"
    using confirmEditDevice_preserves [OF assms(1,2), of r d einp] by blast
qed



lemma example_edit_open_reached:
  "handleDeviceAction 1 Edit False example_page = Some example_edit_open"
  by (simp add: handleDeviceAction_def openEditDeviceModal_def example_edit_open_def
      example_page_def example_device_B_def)

lemma example_edit_open_facts:
  "pw_invariant example_edit_open" "has_sections example_edit_open"
  "links_allocated example_edit_open" "unique_ids example_edit_open"
  "Link 1 \<in> set (sidebar example_edit_open)"
  "elements example_edit_open 1 = Some example_device_B"
  "currentActionDevice example_edit_open = Some 1"
  "editDeviceId_value example_edit_open = data_device_id example_device_B"
  by (simp_all add: example_edit_open_def example_page_def example_device_A_def
      example_device_B_def pw_invariant_def protected_ids_def linked_devices_def
      has_sections_def links_allocated_def unique_ids_def)

lemma pw_invariant_preserved_example:
  "pw_invariant example_edit_open \<and> has_sections example_edit_open
   \<and> links_allocated example_edit_open \<and> unique_ids example_edit_open
   \<and> Link 1 \<in> set (sidebar example_edit_open)
   \<and> elements example_edit_open 1 = Some example_device_B
   \<and> currentActionDevice example_edit_open = Some 1
   \<and> editDeviceId_value example_edit_open = data_device_id example_device_B
   \<and> (\<exists>s'. confirmAddDevice example_input_A 0 example_edit_open = Some s' \<and> pw_invariant s')
   \<and> (\<exists>s'. deleteDevice 1 example_edit_open = Some s' \<and> pw_invariant s')
   \<and> (\<exists>s'. confirmEditDevice example_edit_input example_edit_open = Some s'
          \<and> pw_invariant s')"
  using pw_invariant_preserved [OF example_edit_open_facts(1,2,3),
      of example_input_A 0 1 example_device_B example_edit_input]
    example_edit_open_facts
  by blast




lemma collision_trace_page: "collision_trace = Some collision_page"
  unfolding collision_trace_def page_loaded
  by (simp add: confirmAddDevice_def addDeviceButton_click_def connection_option_click_def
      generateUniqueId_examples trim_examples example_input_A_def example_input_B_def
      addDeviceToSidebar_def statuses_at_def statuses_def insertAfterSection_def
      updateSectionVisibility_def closeModal_def linked_devices_def
      html_page_def example_page_def collision_page_def example_device_A_def
      example_device_B_def bool_attr_def Let_def fun_upd_twist)

text \<open>
  Claim C8. Every add, edit and delete is to keep the password map in step with the
  sidebar: an entry for an id exactly when a device with that id is in the sidebar and is
  marked as protected. The three operations find the entry by the id of the device, and
  \<open>generateUniqueId\<close>, which the source introduces as generating a unique id, is two
  random draws with no look at the ids in use. In the session below a protected camera and
  then an unprotected plug are added by hand, both with the draws 12 and 34 for the id, so
  both are \<open>DEV_0012_0034\<close>. After the two adds the map is in step with the sidebar;
  deleting the plug removes the entry of that id, while the camera stays in the sidebar,
  marked as protected, with no password in the map: the map is no longer in step.
\<close>

theorem delete_with_shared_id_breaks_pw_invariant:
  "collision_trace = Some collision_page
   \<and> pw_invariant collision_page
   \<and> handleDeviceAction 1 Delete True collision_page = Some collision_deleted
   \<and> elements collision_deleted 0 = Some example_device_A
   \<and> Link 0 \<in> set (sidebar collision_deleted)
   \<and> data_protected example_device_A = ''true''
   \<and> devicePasswords collision_deleted (data_device_id example_device_A) = None
   \<and> \<not> pw_invariant collision_deleted"
proof -
  have a: "pw_invariant collision_page"
    by (simp add: collision_page_def example_page_def example_device_A_def
        example_device_B_def pw_invariant_def protected_ids_def linked_devices_def)
  have b: "handleDeviceAction 1 Delete True collision_page = Some collision_deleted"
    by (simp add: handleDeviceAction_def deleteDevice_def updateSectionVisibility_def
        collision_deleted_def collision_page_def example_page_def example_device_A_def
        example_device_B_def linked_devices_def Let_def)
  have c: "elements collision_deleted 0 = Some example_device_A"
    "Link 0 \<in> set (sidebar collision_deleted)"
    "data_protected example_device_A = ''true''"
    "devicePasswords collision_deleted (data_device_id example_device_A) = None"
    by (simp_all add: collision_deleted_def collision_page_def example_page_def
        example_device_A_def)
  have d: "\<not> pw_invariant collision_deleted"
    by (simp add: collision_deleted_def collision_page_def example_page_def
        example_device_A_def example_device_B_def pw_invariant_def protected_ids_def
        linked_devices_def)
  from collision_trace_page a b c d show ?thesis by simp
qed


section \<open>Pages of a session\<close>



lemma page_ok_frame:
  assumes "page_ok s" and "set (sidebar s') = set (sidebar s)"
    and "elements s' = elements s" and "next_ref s \<le> next_ref s'"
  shows "page_ok s'"
  using assms unfolding page_ok_def has_sections_def by fastforce

lemma page_ok_view [simp]:
  "page_ok (updateSectionVisibility s) = page_ok s"
  "page_ok (closeModal m s) = page_ok s"
  "page_ok (alert msg s) = page_ok s"
  by (simp_all add: page_ok_def has_sections_def)

lemma page_ok_move:
  assumes ok: "page_ok s" and el: "elements s r = Some d"
    and sb: "set (sidebar s') = insert (Link r) (set (sidebar s))"
    and el': "elements s' = (elements s)(r \<mapsto> d')"
    and st: "data_status d' = ''online'' \<or> data_status d' = ''offline''"
    and n: "next_ref s' = next_ref s"
  shows "page_ok s'"
proof -
  from ok el have "r < next_ref s" by (simp add: page_ok_def)
  with ok sb el' st n show ?thesis
    unfolding page_ok_def has_sections_def by auto
qed

lemma page_ok_add:
  assumes ok: "page_ok s"
    and sb: "set (sidebar s') = insert (Link (next_ref s)) (set (sidebar s))"
    and el': "elements s' = (elements s)(next_ref s \<mapsto> d)"
    and st: "data_status d = ''online'' \<or> data_status d = ''offline''"
    and n: "next_ref s' = Suc (next_ref s)"
  shows "page_ok s'"
  using assms unfolding page_ok_def has_sections_def by (auto simp: less_Suc_eq)

lemma page_ok_remove:
  assumes ok: "page_ok s" and sb: "sidebar s' = removeAll (Link r) (sidebar s)"
    and el': "elements s' = elements s" and n: "next_ref s' = next_ref s"
  shows "page_ok s'"
  using assms unfolding page_ok_def has_sections_def by auto

lemma page_ok_loaded: "DOMContentLoaded html_page = Some s \<Longrightarrow> page_ok s"
  unfolding page_loaded by (auto simp: page_ok_def has_sections_def html_page_def)

lemma page_ok_links_allocated: "page_ok s \<Longrightarrow> links_allocated s"
  unfolding page_ok_def links_allocated_def list_all_iff
  by (auto split: child.splits)

lemma page_ok_toggleDeviceStatus:
  assumes ok: "page_ok s" and t: "toggleDeviceStatus r s = Some s'"
  shows "page_ok s'"
proof -
  from t obtain d where el: "elements s r = Some d"
    by (cases "elements s r") (simp_all add: toggleDeviceStatus_def)
  let ?d' = "d\<lparr>data_status := (if data_status d = ''online'' then ''offline'' else ''online''),
                status_icon_class := ''device-status status-''
                  @ (if data_status d = ''online'' then ''offline'' else ''online'')\<rparr>"
  let ?s1 = "s\<lparr>elements := (elements s)(r \<mapsto> ?d')\<rparr>"
  from ok have "has_sections ?s1" by (simp add: page_ok_def)
  moreover have "elements ?s1 r = Some ?d'" by simp
  ultimately obtain cs where m: "moveDeviceToCorrectSection r ?s1 = Some (?s1\<lparr>sidebar := cs\<rparr>)"
    and set: "set cs = insert (Link r) (set (sidebar ?s1))"
    using moveDeviceToCorrectSection_Some by blast
  have "toggleDeviceStatus r s = Some (updateSectionVisibility (?s1\<lparr>sidebar := cs\<rparr>))"
    using el m by (simp add: toggleDeviceStatus_def Let_def)
  with t have s': "s' = updateSectionVisibility (?s1\<lparr>sidebar := cs\<rparr>)" by simp
  have "page_ok (?s1\<lparr>sidebar := cs\<rparr>)"
    by (rule page_ok_move [OF ok el, where d' = ?d']) (use set in simp_all)
  then show ?thesis by (simp add: s')
qed

lemma page_ok_toggleFavorite:
  assumes ok: "page_ok s" and t: "toggleFavorite r s = Some s'"
  shows "page_ok s'"
proof -
  from t obtain d where el: "elements s r = Some d"
    by (cases "elements s r") (simp_all add: toggleFavorite_def)
  from ok el have st: "data_status d = ''online'' \<or> data_status d = ''offline''"
    and secs: "has_sections s"
    by (simp_all add: page_ok_def)
  show ?thesis
  proof (cases "data_favorite d = ''true''")
    case True
    let ?d' = "d\<lparr>data_favorite := ''false'', favorite_star := star_empty,
                  favorite_star_active := False\<rparr>"
    let ?s1 = "s\<lparr>elements := (elements s)(r \<mapsto> ?d')\<rparr>"
    have "has_sections ?s1" and "elements ?s1 r = Some ?d'"
      using secs by simp_all
    from moveDeviceToCorrectSection_Some [OF this]
    obtain cs where m: "moveDeviceToCorrectSection r ?s1 = Some (?s1\<lparr>sidebar := cs\<rparr>)"
      and set: "set cs = insert (Link r) (set (sidebar ?s1))"
      by blast
    have "toggleFavorite r s = Some (updateSectionVisibility (?s1\<lparr>sidebar := cs\<rparr>))"
      using el m True by (simp add: toggleFavorite_def)
    with t have s': "s' = updateSectionVisibility (?s1\<lparr>sidebar := cs\<rparr>)" by simp
    have "page_ok (?s1\<lparr>sidebar := cs\<rparr>)"
      by (rule page_ok_move [OF ok el, where d' = ?d']) (use set st in simp_all)
    then show ?thesis by (simp add: s')
  next
    case False
    let ?d' = "d\<lparr>data_favorite := ''true'', favorite_star := star_filled,
                  favorite_star_active := True\<rparr>"
    let ?s1 = "s\<lparr>elements := (elements s)(r \<mapsto> ?d')\<rparr>"
    from secs have f: "Category Favorites \<in> set (sidebar ?s1)"
      by (simp add: has_sections_def)
    from insertAfterSection_Some [OF f, of r]
    obtain cs where m: "insertAfterSection Favorites r ?s1 = Some (?s1\<lparr>sidebar := cs\<rparr>)"
      and set: "set cs = insert (Link r) (set (sidebar ?s1))"
      by blast
    have "toggleFavorite r s = Some (updateSectionVisibility (?s1\<lparr>sidebar := cs\<rparr>))"
      using el m f False by (simp add: toggleFavorite_def moveDeviceToFavorites_def)
    with t have s': "s' = updateSectionVisibility (?s1\<lparr>sidebar := cs\<rparr>)" by simp
    have "page_ok (?s1\<lparr>sidebar := cs\<rparr>)"
      by (rule page_ok_move [OF ok el, where d' = ?d']) (use set st in simp_all)
    then show ?thesis by (simp add: s')
  qed
qed

lemma page_ok_deleteDevice:
  assumes ok: "page_ok s" and t: "deleteDevice r s = Some s'"
  shows "page_ok s'"
proof -
  from t obtain d where el: "elements s r = Some d"
    by (cases "elements s r") (simp_all add: deleteDevice_def)
  from t el have link: "Link r \<in> set (sidebar s)"
    by (simp add: deleteDevice_def Let_def split: if_splits)
  from deleteDevice_result [OF el link] t
  have s': "s' = s\<lparr>devicePasswords := (devicePasswords s)(data_device_id d := None),
                    sidebar := removeAll (Link r) (sidebar s)\<rparr>"
    by simp
  show ?thesis
    by (rule page_ok_remove [OF ok, of _ r]) (simp_all add: s')
qed

lemma page_ok_openEditDeviceModal:
  "page_ok s \<Longrightarrow> openEditDeviceModal r s = Some s' \<Longrightarrow> page_ok s'"
  by (cases "elements s r")
    (auto simp: openEditDeviceModal_def elim!: page_ok_frame)


lemma page_ok_handleDeviceAction:
  assumes ok: "page_ok s" and t: "handleDeviceAction r a confirmed s = Some s'"
  shows "page_ok s'"
proof -
  let ?s1 = "s\<lparr>currentActionDevice := Some r, currentActionType := Some a\<rparr>"
  have ok1: "page_ok ?s1"
    by (rule page_ok_frame [OF ok]) simp_all
  from t obtain d where el: "elements s r = Some d"
    by (cases "elements s r") (simp_all add: handleDeviceAction_def)
  show ?thesis
  proof (cases "data_protected d = ''true''")
    case True
    with t el have "s' = ?s1\<lparr>passwordPromptText :=
                        (case a of
                           Edit \<Rightarrow> ''Enter password to edit device.''
                         | Delete \<Rightarrow> ''Enter password to delete device.''),
                      passwordVerifyModal_show := True\<rparr>"
      by (simp add: handleDeviceAction_def)
    then show ?thesis
      by (intro page_ok_frame [OF ok]) simp_all
  next
    case False
    show ?thesis
    proof (cases a)
      case Edit
      with t el False have "openEditDeviceModal r ?s1 = Some s'"
        by (simp add: handleDeviceAction_def)
      from page_ok_openEditDeviceModal [OF ok1 this] show ?thesis .
    next
      case Delete
      show ?thesis
      proof (cases confirmed)
        case True
        with t el False Delete
        have "map_option updateSectionVisibility (deleteDevice r ?s1) = Some s'"
          by (simp add: handleDeviceAction_def)
        then obtain s2 where d: "deleteDevice r ?s1 = Some s2"
          and s': "s' = updateSectionVisibility s2"
          by auto
        from page_ok_deleteDevice [OF ok1 d] show ?thesis by (simp add: s')
      next
        case no: False
        with t el False Delete have "s' = ?s1"
          by (simp add: handleDeviceAction_def)
        with ok1 show ?thesis by simp
      qed
    qed
  qed
qed

lemma page_ok_confirmPasswordVerify:
  assumes ok: "page_ok s" and t: "confirmPasswordVerify entered s = Some s'"
  shows "page_ok s'"
proof -
  from t obtain r where cur: "currentActionDevice s = Some r"
    by (cases "currentActionDevice s") (simp_all add: confirmPasswordVerify_def)
  from t cur obtain d where el: "elements s r = Some d"
    by (cases "elements s r") (simp_all add: confirmPasswordVerify_def)
  let ?s1 = "closeModal PasswordVerifyModal s"
  have ok1: "page_ok ?s1" using ok by simp
  show ?thesis
  proof (cases "devicePasswords s (data_device_id d) = Some entered")
    case False
    from confirmPasswordVerify_mismatch [OF cur el False] t ok show ?thesis
      by (auto elim!: page_ok_frame)
  next
    case True
    show ?thesis
    proof (cases "currentActionType s")
      case None
      with t cur el True have "s' = ?s1"
        by (simp add: confirmPasswordVerify_def)
      with ok1 show ?thesis by simp
    next
      case (Some a)
      show ?thesis
      proof (cases a)
        case Edit
        with t cur el True Some have "openEditDeviceModal r ?s1 = Some s'"
          by (simp add: confirmPasswordVerify_def)
        from page_ok_openEditDeviceModal [OF ok1 this] show ?thesis .
      next
        case Delete
        with t cur el True Some
        have "map_option updateSectionVisibility (deleteDevice r ?s1) = Some s'"
          by (simp add: confirmPasswordVerify_def)
        then obtain s2 where d: "deleteDevice r ?s1 = Some s2"
          and s': "s' = updateSectionVisibility s2"
          by auto
        from page_ok_deleteDevice [OF ok1 d] show ?thesis by (simp add: s')
      qed
    qed
  qed
qed

lemma page_ok_confirmAddDevice:
  assumes ok: "page_ok s" and i: "i < 2" and t: "confirmAddDevice inp i s = Some s'"
  shows "page_ok s'"
proof (cases "trim (deviceName_value inp) = []
        \<or> (passwordProtect_checked inp \<and> devicePassword_value inp = [])
        \<or> (selected_option s = Some ''manual'' \<and> trim (deviceIP_value inp) = [])")
  case True
  from confirmAddDevice_invalid [OF this, of i] t
  obtain msg where "s' = alert msg s"
    unfolding alert_def by auto
  with ok show ?thesis by simp
next
  case False
  let ?s1 = "if passwordProtect_checked inp
                 then s\<lparr>devicePasswords :=
                          (devicePasswords s)(deviceId_value s \<mapsto> devicePassword_value inp)\<rparr>
                 else s"
  have ok1: "page_ok ?s1"
    by (rule page_ok_frame [OF ok]) simp_all
  then have h: "has_sections ?s1" by (simp add: page_ok_def)
  from addDeviceToSidebar_result [OF h, of "trim (deviceName_value inp)" "deviceId_value s"
      "passwordProtect_checked inp" "deviceType_value inp"
      "if selected_option s = Some ''manual'' then trim (deviceIP_value inp) else []"
      "selected_option s = Some ''manual''" i]
  obtain s2 d where a: "addDeviceToSidebar (trim (deviceName_value inp)) (deviceId_value s)
                (passwordProtect_checked inp) (deviceType_value inp)
                (if selected_option s = Some ''manual'' then trim (deviceIP_value inp) else [])
                (selected_option s = Some ''manual'') i ?s1 = Some s2"
    and e: "elements s2 = (elements ?s1)(next_ref ?s1 \<mapsto> d)"
    and sb: "set (sidebar s2) = insert (Link (next_ref ?s1)) (set (sidebar ?s1))"
    and n: "next_ref s2 = Suc (next_ref ?s1)"
    and st: "data_status d = statuses_at i"
    by blast
  from i have "statuses_at i = ''online'' \<or> statuses_at i = ''offline''"
    by (cases i) (auto simp: statuses_at_def statuses_def less_Suc_eq)
  with st have st': "data_status d = ''online'' \<or> data_status d = ''offline''" by simp
  have "page_ok s2"
    by (rule page_ok_add [OF ok1 sb e st' n])
  moreover have "s' = updateSectionVisibility (closeModal AddDeviceModal s2)"
    using confirmAddDevice_success [of inp s i] False a t by simp
  ultimately show ?thesis by simp
qed

lemma confirmEditDevice_no_device:
  assumes "\<not> (\<exists>r d. currentActionDevice s = Some r \<and> elements s r = Some d)"
  shows "confirmEditDevice einp s = None \<or> (\<exists>msg. confirmEditDevice einp s = Some (alert msg s))"
proof -
  have none: "(currentActionDevice s \<bind> (\<lambda>r. elements s r \<bind> f r)) = None"
    for f :: "ref \<Rightarrow> device \<Rightarrow> 'b option"
  proof (cases "currentActionDevice s")
    case (Some r)
    with assms have "elements s r = None" by (cases "elements s r") auto
    with Some show ?thesis by simp
  qed simp
  show ?thesis
  proof (cases "editDeviceIP_disabled s")
    case True
    then have "confirmEditDevice einp s = None"
      by (simp add: confirmEditDevice_def Let_def none)
    then show ?thesis ..
  next
    case False
    show ?thesis
    proof (cases "trim (editDeviceName_value einp) = []")
      case True
      with False have "confirmEditDevice einp s = Some (alert ''Enter device name!'' s)"
        by (simp add: confirmEditDevice_def Let_def)
      then show ?thesis by blast
    next
      case name: False
      show ?thesis
      proof (cases "editPasswordProtect_checked einp \<and> editDevicePassword_value einp = []
          \<and> (case devicePasswords s (editDeviceId_value s) of None \<Rightarrow> [] | Some p \<Rightarrow> p) = []")
        case True
        with False name
        have "confirmEditDevice einp s
                = Some (alert ''Enter password for protected device!'' s)"
          by (simp add: confirmEditDevice_def Let_def)
        then show ?thesis by blast
      next
        case pw: False
        have "confirmEditDevice einp s = None"
          unfolding confirmEditDevice_def Let_def
          by (simp only: False name pw none if_False if_True not_False_eq_True bind.bind_lunit)
        then show ?thesis ..
      qed
    qed
  qed
qed

lemma page_ok_confirmEditDevice:
  assumes ok: "page_ok s" and t: "confirmEditDevice einp s = Some s'"
  shows "page_ok s'"
proof (cases "\<exists>r d. currentActionDevice s = Some r \<and> elements s r = Some d")
  case False
  from confirmEditDevice_no_device [OF this, of einp] t
  obtain msg where "s' = alert msg s" by auto
  with ok show ?thesis by simp
next
  case True
  then obtain r d where cur: "currentActionDevice s = Some r" and el: "elements s r = Some d"
    by blast
  let ?name = "trim (editDeviceName_value einp)"
  let ?stored = "case devicePasswords s (editDeviceId_value s) of None \<Rightarrow> [] | Some p \<Rightarrow> p"
  let ?ip = "if \<not> editDeviceIP_disabled s then trim (editDeviceIP_value einp)
             else (case data_ip d of None \<Rightarrow> [] | Some a \<Rightarrow> a)"
  let ?prot = "editPasswordProtect_checked einp"
  let ?pws = "if ?prot
              then (if editDevicePassword_value einp \<noteq> []
                    then (devicePasswords s)
                           (editDeviceId_value s \<mapsto> editDevicePassword_value einp)
                    else devicePasswords s)
              else (devicePasswords s)(editDeviceId_value s := None)"
  let ?fails = "?name = [] \<or> (?prot \<and> editDevicePassword_value einp = [] \<and> ?stored = [])
                \<or> (data_manual_add d = ''true'' \<and> ?ip = [])"
  show ?thesis
  proof (cases ?fails)
    case True
    then have "\<exists>msg. confirmEditDevice einp s = Some (alert msg s)"
      unfolding confirmEditDevice_unfold [OF cur el] Let_def by auto
    with t obtain msg where "s' = alert msg s" by auto
    with ok show ?thesis by simp
  next
    case False
    let ?s1 = "s\<lparr>devicePasswords := ?pws\<rparr>"
    have ok1: "page_ok ?s1"
      by (rule page_ok_frame [OF ok]) simp_all
    then have h: "has_sections ?s1" by (simp add: page_ok_def)
    have e1: "elements ?s1 r = Some d" using el by simp
    from updateDeviceInSidebar_result [OF h e1, of ?name "editDeviceId_value s" ?prot
        "editDeviceType_value einp" ?ip "Some (data_manual_add d = ''true'')"]
    obtain cs d' where u: "updateDeviceInSidebar r ?name (editDeviceId_value s) ?prot
                 (editDeviceType_value einp) ?ip (Some (data_manual_add d = ''true'')) ?s1
               = Some (?s1\<lparr>elements := (elements ?s1)(r \<mapsto> d'), sidebar := cs\<rparr>)"
      and set: "set cs = insert (Link r) (set (sidebar ?s1))"
      and st: "data_status d' = data_status d"
      by blast
    let ?s2 = "?s1\<lparr>elements := (elements ?s1)(r \<mapsto> d'), sidebar := cs\<rparr>"
    from False have n1: "?name \<noteq> []"
      and n2: "\<not> (?prot \<and> editDevicePassword_value einp = [] \<and> ?stored = [])"
      and n3: "\<not> (data_manual_add d = ''true'' \<and> ?ip = [])"
      by blast+
    have "confirmEditDevice einp s
            = map_option (\<lambda>s2. updateSectionVisibility (closeModal EditDeviceModal s2))
                (updateDeviceInSidebar r ?name (editDeviceId_value s) ?prot
                   (editDeviceType_value einp) ?ip (Some (data_manual_add d = ''true'')) ?s1)"
      unfolding confirmEditDevice_unfold [OF cur el] Let_def
      by (simp only: n1 n2 n3 if_False)
    then have "confirmEditDevice einp s
               = Some (updateSectionVisibility (closeModal EditDeviceModal ?s2))"
      by (simp only: u option.map)
    with t have s': "s' = updateSectionVisibility (closeModal EditDeviceModal ?s2)" by simp
    from ok el have "data_status d = ''online'' \<or> data_status d = ''offline''"
      by (simp add: page_ok_def)
    then have "page_ok ?s2"
      by (intro page_ok_move [OF ok1 e1, where d' = d']) (use set st in simp_all)
    then show ?thesis by (simp add: s')
  qed
qed

lemma applyFilters_fields:
  "sidebar (applyFilters a b ty s) = sidebar s"
  "next_ref (applyFilters a b ty s) = next_ref s"
  "elements (applyFilters a b ty s) r =
     (if Link r \<in> set (sidebar s)
      then map_option (\<lambda>d. d\<lparr>filtered := \<not> should_show a b ty d\<rparr>) (elements s r)
      else elements s r)"
  by (simp_all add: applyFilters_def Let_def)

lemma page_ok_applyFilters:
  assumes ok: "page_ok s"
  shows "page_ok (applyFilters a b ty s)"
  unfolding page_ok_def
proof (intro conjI allI impI)
  show "has_sections (applyFilters a b ty s)"
    using ok by (simp add: page_ok_def has_sections_def applyFilters_fields)
next
  fix r assume "Link r \<in> set (sidebar (applyFilters a b ty s))"
  then have l: "Link r \<in> set (sidebar s)" by (simp add: applyFilters_fields)
  with ok obtain d where "elements s r = Some d" by (auto simp: page_ok_def)
  with l show "elements (applyFilters a b ty s) r \<noteq> None"
    by (simp add: applyFilters_fields)
next
  fix r d' assume e: "elements (applyFilters a b ty s) r = Some d'"
  have "\<exists>d. elements s r = Some d \<and> data_status d' = data_status d"
  proof (cases "Link r \<in> set (sidebar s)")
    case True
    with e obtain d where "elements s r = Some d"
      and "d' = d\<lparr>filtered := \<not> should_show a b ty d\<rparr>"
      by (cases "elements s r") (simp_all add: applyFilters_fields)
    then show ?thesis by simp
  next
    case False
    with e show ?thesis by (simp add: applyFilters_fields)
  qed
  then obtain d where "elements s r = Some d" and "data_status d' = data_status d" by blast
  with ok show "r < next_ref (applyFilters a b ty s)"
    and "data_status d' = ''online'' \<or> data_status d' = ''offline''"
    by (simp_all add: page_ok_def applyFilters_fields)
qed

lemma scanForDevices_catch_fields:
  "sidebar (scanForDevices_catch li s) = sidebar s"
  "elements (scanForDevices_catch li s) = elements s"
  "next_ref (scanForDevices_catch li s) = next_ref s"
  by (simp_all add: scanForDevices_catch_def Let_def)

lemma appendDevices_frame:
  "\<exists>c. appendDevices B ds s = Returned (s\<lparr>deviceListContainer := c\<rparr>)
     \<or> appendDevices B ds s = Threw (s\<lparr>deviceListContainer := c\<rparr>)"
proof (induction ds arbitrary: s)
  case Nil
  have "s = s\<lparr>deviceListContainer := deviceListContainer s\<rparr>" by simp
  then show ?case by (metis appendDevices.simps(1))
next
  case (Cons d ds)
  show ?case
  proof (cases "scanForDevices_deviceItem B d")
    case None
    have "s = s\<lparr>deviceListContainer := deviceListContainer s\<rparr>" by simp
    with None show ?thesis by (metis appendDevices.simps(2) option.simps(4))
  next
    case (Some i)
    from Cons.IH [of "append_node (DeviceListItem i) s"] Some show ?thesis
      by (simp add: append_node_def)
  qed
qed

lemma scanForDevices_then_frame:
  "\<exists>c. scanForDevices_then B li data s = Returned (s\<lparr>deviceListContainer := c\<rparr>)
     \<or> scanForDevices_then B li data s = Threw (s\<lparr>deviceListContainer := c\<rparr>)"
proof (cases "LoadingIndicator li scan_loading_text \<in> set (deviceListContainer s)")
  case False
  have "s = s\<lparr>deviceListContainer := deviceListContainer s\<rparr>" by simp
  moreover from False have "scanForDevices_then B li data s = Threw s"
    by (simp add: scanForDevices_then_def)
  ultimately show ?thesis by metis
next
  case True
  define s1 where
    "s1 = s\<lparr>deviceListContainer :=
              remove1 (LoadingIndicator li scan_loading_text) (deviceListContainer s)\<rparr>"
  have s1: "\<And>c. s1\<lparr>deviceListContainer := c\<rparr> = s\<lparr>deviceListContainer := c\<rparr>"
    "\<And>n. append_node n s1 = s\<lparr>deviceListContainer := deviceListContainer s1 @ [n]\<rparr>"
    "s1 = s\<lparr>deviceListContainer := deviceListContainer s1\<rparr>"
    by (simp_all add: s1_def append_node_def)
  have a: "\<And>ds. \<exists>c. appendDevices B ds s1 = Returned (s\<lparr>deviceListContainer := c\<rparr>)
     \<or> appendDevices B ds s1 = Threw (s\<lparr>deviceListContainer := c\<rparr>)"
    using appendDevices_frame [of B _ s1] unfolding s1(1) .
  have t: "\<exists>c. Threw s1 = Returned (s\<lparr>deviceListContainer := c\<rparr>)
     \<or> Threw s1 = Threw (s\<lparr>deviceListContainer := c\<rparr>)"
    using s1(3) by blast
  have r: "\<And>n. \<exists>c. Returned (append_node n s1) = Returned (s\<lparr>deviceListContainer := c\<rparr>)
     \<or> Returned (append_node n s1) = Threw (s\<lparr>deviceListContainer := c\<rparr>)"
    using s1(2) by blast
  have "scanForDevices_then B li data s =
     (case get_prop data ''error'' of
        None \<Rightarrow> Threw s1
      | Some err \<Rightarrow>
          if truthy err
          then (case to_String err of
                  None \<Rightarrow> Threw s1
                | Some e \<Rightarrow> Returned (append_node (ErrorMessage e) s1))
          else
            (case get_prop data ''devices'' of
               None \<Rightarrow> Threw s1
             | Some devices \<Rightarrow>
                 if \<not> truthy devices
                 then Returned (append_node (NoDevicesMessage scan_no_devices_text) s1)
                 else
                   (case length_exceeds_zero B devices of
                      None \<Rightarrow> Threw s1
                    | Some False \<Rightarrow>
                        Returned (append_node (NoDevicesMessage scan_no_devices_text) s1)
                    | Some True \<Rightarrow>
                        (case forEach_items devices of
                           None \<Rightarrow> Threw s1
                         | Some ds \<Rightarrow> appendDevices B ds s1))))"
    using True unfolding scanForDevices_then_def s1_def Let_def by simp
  then show ?thesis
    using a t r by (simp split: option.split bool.split)
qed

lemma scanForDevices_settled_fields:
  "sidebar (scanForDevices_settled B li outcome s) = sidebar s
   \<and> elements (scanForDevices_settled B li outcome s) = elements s
   \<and> next_ref (scanForDevices_settled B li outcome s) = next_ref s"
proof (cases outcome)
  case Rejected
  then show ?thesis
    by (simp add: scanForDevices_settled_def scanForDevices_catch_fields)
next
  case (Fulfilled data)
  from scanForDevices_then_frame [of B li data s] obtain c
    where "scanForDevices_then B li data s = Returned (s\<lparr>deviceListContainer := c\<rparr>)
     \<or> scanForDevices_then B li data s = Threw (s\<lparr>deviceListContainer := c\<rparr>)"
    by blast
  with Fulfilled show ?thesis
    by (auto simp: scanForDevices_settled_def scanForDevices_catch_fields)
qed

lemma page_ok_scan:
  assumes ok: "page_ok s"
  shows "page_ok (connection_option_click method s)"
    and "page_ok (scanForDevices_settled B li outcome s)"
    and "page_ok (addDeviceButton_click r1 r2 s)"
proof -
  show "page_ok (connection_option_click method s)"
    by (rule page_ok_frame [OF ok])
      (simp_all add: connection_option_click_def scanForDevices_def Let_def)
  show "page_ok (addDeviceButton_click r1 r2 s)"
    by (rule page_ok_frame [OF ok]) (simp_all add: addDeviceButton_click_def)
  show "page_ok (scanForDevices_settled B li outcome s)"
    by (rule page_ok_frame [OF ok]) (simp_all add: scanForDevices_settled_fields)
qed

lemma page_ok_handle:
  assumes ok: "page_ok s" and h: "handle B e s = Some s'"
  shows "page_ok s'"
proof (cases e)
  case (AddDeviceButton r1 r2)
  with h have "s' = addDeviceButton_click r1 r2 s" by (simp split: if_splits)
  with page_ok_scan(3) [OF ok] show ?thesis by simp
next
  case (ConnectionOption opt)
  with h have "s' = connection_option_click opt s" by simp
  with page_ok_scan(1) [OF ok] show ?thesis by simp
next
  case (ConfirmAdd inp i)
  with h have "i < 2" and "confirmAddDevice inp i s = Some s'"
    by (simp_all split: if_splits)
  from page_ok_confirmAddDevice [OF ok this] show ?thesis .
next
  case (DeviceAction r a confirmed)
  with h have "handleDeviceAction r a confirmed s = Some s'" by (simp split: if_splits)
  from page_ok_handleDeviceAction [OF ok this] show ?thesis .
next
  case (ConfirmPassword entered)
  with h have "confirmPasswordVerify entered s = Some s'" by simp
  from page_ok_confirmPasswordVerify [OF ok this] show ?thesis .
next
  case (ConfirmEdit inp)
  with h have "confirmEditDevice inp s = Some s'" by simp
  from page_ok_confirmEditDevice [OF ok this] show ?thesis .
next
  case (SidebarClick r)
  with h have "toggleDeviceStatus r s = Some s'" by (simp split: if_splits)
  from page_ok_toggleDeviceStatus [OF ok this] show ?thesis .
next
  case (StarClick r)
  with h have "toggleFavorite r s = Some s'" by (simp split: if_splits)
  from page_ok_toggleFavorite [OF ok this] show ?thesis .
next
  case (FilterChange a b ty)
  with h have "s' = applyFilters a b ty s" by simp
  with page_ok_applyFilters [OF ok] show ?thesis by simp
next
  case (ScanSettled li outcome)
  with h have "s' = scanForDevices_settled B li outcome s" by simp
  with page_ok_scan(2) [OF ok] show ?thesis by simp
next
  case (CloseModal m)
  with h ok show ?thesis by auto
qed

text \<open>
  Every page of a session has the three headers, an element behind every link, and the
  status \<open>online\<close> or \<open>offline\<close> on every element: the premises of the results above about
  devices in the sidebar hold on every page that the script can produce.
\<close>

lemma reachable_page_ok: "reachable B s \<Longrightarrow> page_ok s"
proof (induction rule: reachable.induct)
  case (loaded s)
  then show ?case by (rule page_ok_loaded)
next
  case (step s e s')
  then show ?case by (blast intro: page_ok_handle)
qed

lemma reachable_device:
  assumes "reachable B s" and "Link r \<in> set (sidebar s)"
  shows "has_sections s
       \<and> (\<exists>d. elements s r = Some d
              \<and> (data_status d = ''online'' \<or> data_status d = ''offline''))"
  using reachable_page_ok [OF assms(1)] assms(2) unfolding page_ok_def by blast

text \<open>So, in a session, two clicks on a device in the sidebar give back its status, and
  a click on the device or on its star leaves it in the section it belongs to.\<close>

lemma reachable_toggle_twice:
  assumes "reachable B s" and "Link r \<in> set (sidebar s)"
  shows "\<exists>d s1 s2 d2. elements s r = Some d \<and> toggleDeviceStatus r s = Some s1
           \<and> toggleDeviceStatus r s1 = Some s2 \<and> elements s2 r = Some d2
           \<and> data_status d2 = data_status d"
proof -
  from reachable_device [OF assms] obtain d where secs: "has_sections s"
    and el: "elements s r = Some d"
    and st: "data_status d = ''online'' \<or> data_status d = ''offline''"
    by blast
  from toggleDeviceStatus_result [OF secs el]
  obtain s1 d1 where t1: "toggleDeviceStatus r s = Some s1" and e1: "elements s1 r = Some d1"
    and st1: "data_status d1 = (if data_status d = ''online'' then ''offline'' else ''online'')"
    and h1: "has_sections s1"
    by force
  from toggleDeviceStatus_result [OF h1 e1]
  obtain s2 d2 where t2: "toggleDeviceStatus r s1 = Some s2" and e2: "elements s2 r = Some d2"
    and st2: "data_status d2 = (if data_status d1 = ''online'' then ''offline'' else ''online'')"
    by force
  from st st1 st2 have "data_status d2 = data_status d" by auto
  with el t1 t2 e2 show ?thesis by blast
qed

lemma reachable_toggle_placed:
  assumes "reachable B s" and "Link r \<in> set (sidebar s)"
  shows "(\<exists>s'. toggleDeviceStatus r s = Some s' \<and> in_correct_section r s')
       \<and> (\<exists>s'. toggleFavorite r s = Some s' \<and> in_correct_section r s')"
proof -
  from reachable_device [OF assms] obtain d where secs: "has_sections s"
    and el: "elements s r = Some d"
    by blast
  from toggleDeviceStatus_result [OF secs el] toggleFavorite_result [OF secs el]
  show ?thesis by blast
qed

end
